theory Spec2Isabelle
  imports Complex_Main "HOL-Library.Sublist"
begin

section \<open>JavaScript strings and arrays\<close>

text \<open>
  A JavaScript string is the list of its UTF-16 code units, each a number. A string that
  is written in ASCII is given as \<open>ascii ''...''\<close>.
\<close>

type_synonym code_unit = nat

type_synonym jsstring = "code_unit list"

definition ascii :: "string \<Rightarrow> jsstring" where
  "ascii s = map of_char s"

text \<open>
  \<^verbatim>\<open>String.prototype.toLowerCase\<close> and the \<^verbatim>\<open>Canonicalize\<close> operation of a regular
  expression with the flag \<^verbatim>\<open>i\<close> belong to the JavaScript engine and follow the Unicode
  tables; they are parameters of the model. \<open>toLowerCase\<close> maps a string to a string (it may
  change the length and looks at the context of a letter), \<open>Canonicalize\<close> maps one code
  unit to one code unit.
\<close>

record runtime =
  toLowerCase :: "jsstring \<Rightarrow> jsstring"
  Canonicalize :: "code_unit \<Rightarrow> code_unit"

text \<open>
  What ECMAScript fixes about \<open>toLowerCase\<close> without the tables: on a string of ASCII
  characters it maps \<open>A\<close> to \<open>Z\<close> to \<open>a\<close> to \<open>z\<close> and keeps every other character, and only
  the empty string has an empty result.
\<close>

definition ascii_toLowerCase :: "code_unit \<Rightarrow> code_unit" where
  "ascii_toLowerCase c = (if 65 \<le> c \<and> c \<le> 90 then c + 32 else c)"

definition ecmascript_runtime :: "runtime \<Rightarrow> bool" where
  "ecmascript_runtime rt =
     ((\<forall>s. (\<forall>c\<in>set s. c < 128) \<longrightarrow> toLowerCase rt s = map ascii_toLowerCase s) \<and>
      (\<forall>s. toLowerCase rt s = [] \<longrightarrow> s = []))"

text \<open>\<^verbatim>\<open>text.includes(key)\<close>: some position of \<open>text\<close> starts a copy of \<open>key\<close>.\<close>

fun includes_js :: "jsstring \<Rightarrow> jsstring \<Rightarrow> bool" where
  "includes_js [] key = (key = [])"
| "includes_js (c # cs) key = (prefix key (c # cs) \<or> includes_js cs key)"

text \<open>\<^verbatim>\<open>parts.join(sep)\<close>\<close>

fun join :: "jsstring \<Rightarrow> jsstring list \<Rightarrow> jsstring" where
  "join sep [] = []"
| "join sep [x] = x"
| "join sep (x # y # ys) = x @ sep @ join sep (y # ys)"

text \<open>
  \<^verbatim>\<open>xs.slice(start)\<close>: a negative start counts from the end and is clipped at the first
  element, a start beyond the end gives the empty array.
\<close>

definition slice :: "'a list \<Rightarrow> int \<Rightarrow> 'a list" where
  "slice xs start =
     (let len = int (length xs);
          k = (if start < 0 then max (len + start) 0 else min start len)
      in drop (nat k) xs)"

section \<open>Math.random() * 100\<close>

text \<open>
  \<^verbatim>\<open>Math.random()\<close> gives a double that is at least 0 and less than 1. Every such double
  is \<open>mantissa / 2 ^ binary_places\<close> with a mantissa below \<open>2 ^ 53\<close> and at most 1074 binary
  places.
\<close>

record random_number =
  mantissa :: nat
  binary_places :: nat

definition is_random_number :: "random_number \<Rightarrow> bool" where
  "is_random_number d =
     (mantissa d < 2 ^ 53 \<and> mantissa d < 2 ^ binary_places d \<and> binary_places d \<le> 1074)"

definition number_value :: "random_number \<Rightarrow> real" where
  "number_value d = real (mantissa d) / 2 ^ binary_places d"

text \<open>
  The product of two doubles is the exact product rounded to 53 significant bits, to the
  nearest and, in a tie, to the even neighbour. \<open>excess_bits M\<close> is the number of bits by
  which \<open>M\<close> is longer than 53 bits (the bound is \<open>2 ^ 53\<close>), \<open>round_nearest_even M s\<close> drops
  the last \<open>s\<close> bits of \<open>M\<close>. A product with 100 of a number below 1 neither overflows nor
  falls below the smallest exponent.
\<close>

function excess_bits :: "nat \<Rightarrow> nat" where
  "excess_bits M = (if M < 9007199254740992 then 0 else Suc (excess_bits (M div 2)))"
  by pat_completeness auto
termination
  by (relation "measure (\<lambda>M. M)") auto

declare excess_bits.simps [simp del]

definition round_nearest_even :: "nat \<Rightarrow> nat \<Rightarrow> nat" where
  "round_nearest_even M s =
     (let q = M div 2 ^ s; r = M mod 2 ^ s
      in if 2 ^ s < 2 * r \<or> (2 * r = 2 ^ s \<and> odd q) then q + 1 else q)"

text \<open>The value of the double \<^verbatim>\<open>d * 100\<close>.\<close>

definition times_100 :: "random_number \<Rightarrow> real" where
  "times_100 d =
     (let M = mantissa d * 100; s = excess_bits M
      in real (round_nearest_even M s * 2 ^ s) / 2 ^ binary_places d)"

section \<open>The regular expressions that matchKeys builds\<close>

text \<open>
  \<^verbatim>\<open>new RegExp(pattern, flags)\<close> and \<^verbatim>\<open>regex.test(text)\<close> are modelled for the part of the
  pattern language made of literal characters, identity escapes of the syntax characters,
  \<^verbatim>\<open>\b\<close>, \<^verbatim>\<open>\B\<close>, groups and alternation. A pattern that uses anything else
  (quantifiers, classes, the dot, anchors, other escapes) is outside this fragment; a
  pattern with unbalanced parentheses or a trailing backslash is a SyntaxError, as in
  JavaScript.
\<close>

datatype js_error = SyntaxError | OutsideFragment

datatype regex =
    Empty
  | Lit code_unit
  | WordB
  | NotWordB
  | Seq regex regex
  | Alt regex regex
  | Group regex

datatype token = TAtom regex | TOpen | TClose | TBar

definition backslash :: code_unit where
  "backslash = 92"

text \<open>The characters of the class \<^verbatim>\<open>[.*+?^${}()|[\]\\]\<close>.\<close>

definition syntax_characters :: jsstring where
  "syntax_characters = ascii ''.*+?^${}()|[]'' @ [backslash]"

text \<open>\<^verbatim>\<open>k.replace(/[.*+?^${}()|[\]\\]/g, '\\$&')\<close>\<close>

fun escapeRegExp :: "jsstring \<Rightarrow> jsstring" where
  "escapeRegExp [] = []"
| "escapeRegExp (c # cs) =
     (if c \<in> set syntax_characters then backslash # c # escapeRegExp cs
      else c # escapeRegExp cs)"

definition prepend :: "'a \<Rightarrow> js_error + 'a list \<Rightarrow> js_error + 'a list" where
  "prepend t r = (case r of Inl e \<Rightarrow> Inl e | Inr ts \<Rightarrow> Inr (t # ts))"

fun tokens :: "jsstring \<Rightarrow> js_error + token list" where
  "tokens [] = Inr []"
| "tokens (c # cs) =
     (if c = backslash then
        (case cs of
           [] \<Rightarrow> Inl SyntaxError
         | e # rest \<Rightarrow>
             if e = of_char CHR ''b'' then prepend (TAtom WordB) (tokens rest)
             else if e = of_char CHR ''B'' then prepend (TAtom NotWordB) (tokens rest)
             else if e \<in> set syntax_characters \<or> e = of_char CHR ''/''
               then prepend (TAtom (Lit e)) (tokens rest)
             else Inl OutsideFragment)
      else if c = of_char CHR ''('' then prepend TOpen (tokens cs)
      else if c = of_char CHR '')'' then prepend TClose (tokens cs)
      else if c = of_char CHR ''|'' then prepend TBar (tokens cs)
      else if c \<in> set syntax_characters then Inl OutsideFragment
      else prepend (TAtom (Lit c)) (tokens cs))"

text \<open>
  A frame holds the alternatives already closed by a bar and the terms of the current
  alternative; the stack holds the frames of the enclosing groups.
\<close>

type_synonym frame = "regex option \<times> regex"

definition finish :: "frame \<Rightarrow> regex" where
  "finish f = (case fst f of None \<Rightarrow> snd f | Some a \<Rightarrow> Alt a (snd f))"

fun parse_tokens :: "token list \<Rightarrow> frame \<Rightarrow> frame list \<Rightarrow> js_error + regex" where
  "parse_tokens [] cur stack = (if stack = [] then Inr (finish cur) else Inl SyntaxError)"
| "parse_tokens (TAtom r # ts) cur stack = parse_tokens ts (fst cur, Seq (snd cur) r) stack"
| "parse_tokens (TBar # ts) cur stack = parse_tokens ts (Some (finish cur), Empty) stack"
| "parse_tokens (TOpen # ts) cur stack = parse_tokens ts (None, Empty) (cur # stack)"
| "parse_tokens (TClose # ts) cur stack =
     (case stack of
        [] \<Rightarrow> Inl SyntaxError
      | outer # stack' \<Rightarrow>
          parse_tokens ts (fst outer, Seq (snd outer) (Group (finish cur))) stack')"

text \<open>A compiled regular expression: its flag \<^verbatim>\<open>i\<close> and its parsed pattern.\<close>

record regexp =
  ignoreCase :: bool
  parsed :: regex

definition new_RegExp :: "jsstring \<Rightarrow> bool \<Rightarrow> js_error + regexp" where
  "new_RegExp pattern i =
     (case tokens pattern of
        Inl e \<Rightarrow> Inl e
      | Inr ts \<Rightarrow>
          (case parse_tokens ts (None, Empty) [] of
             Inl e \<Rightarrow> Inl e
           | Inr r \<Rightarrow> Inr \<lparr>ignoreCase = i, parsed = r\<rparr>))"

text \<open>The word characters of \<^verbatim>\<open>\b\<close>; the flag \<^verbatim>\<open>i\<close> does not change them.\<close>

definition word_characters :: jsstring where
  "word_characters =
     ascii ''abcdefghijklmnopqrstuvwxyzABCDEFGHIJKLMNOPQRSTUVWXYZ0123456789_''"

definition isWordChar :: "jsstring \<Rightarrow> int \<Rightarrow> bool" where
  "isWordChar s e =
     (if e = - 1 \<or> e = int (length s) then False
      else s ! nat e \<in> set word_characters)"

definition isWordBoundary :: "jsstring \<Rightarrow> nat \<Rightarrow> bool" where
  "isWordBoundary s e = (isWordChar s (int e - 1) \<noteq> isWordChar s (int e))"

text \<open>
  \<open>ends canon s r e\<close> lists, in the order a backtracking matcher tries them, the positions
  where a match of \<open>r\<close> that starts at position \<open>e\<close> of \<open>s\<close> can end. Two code units match
  when \<open>canon\<close> gives the same for both.
\<close>

fun ends :: "(code_unit \<Rightarrow> code_unit) \<Rightarrow> jsstring \<Rightarrow> regex \<Rightarrow> nat \<Rightarrow> nat list" where
  "ends canon s Empty e = [e]"
| "ends canon s (Lit c) e =
     (if e < length s \<and> canon (s ! e) = canon c then [Suc e] else [])"
| "ends canon s WordB e = (if isWordBoundary s e then [e] else [])"
| "ends canon s NotWordB e = (if isWordBoundary s e then [] else [e])"
| "ends canon s (Seq r1 r2) e = concat (map (ends canon s r2) (ends canon s r1 e))"
| "ends canon s (Alt r1 r2) e = ends canon s r1 e @ ends canon s r2 e"
| "ends canon s (Group r) e = ends canon s r e"

text \<open>
  How a regular expression compares code units: by \<open>Canonicalize\<close> with the flag \<^verbatim>\<open>i\<close>, as
  they are without it.
\<close>

definition regexp_canon :: "runtime \<Rightarrow> bool \<Rightarrow> code_unit \<Rightarrow> code_unit" where
  "regexp_canon rt i = (if i then Canonicalize rt else (\<lambda>c. c))"

text \<open>
  \<^verbatim>\<open>regex.test(text)\<close> on a regular expression that was just built (its lastIndex is 0):
  some start position has a match.
\<close>

definition regexp_test :: "runtime \<Rightarrow> regexp \<Rightarrow> jsstring \<Rightarrow> bool" where
  "regexp_test rt re s =
     list_ex (\<lambda>e. ends (regexp_canon rt (ignoreCase re)) s (parsed re) e \<noteq> [])
       [0 ..< Suc (length s)]"

section \<open>matchKeys\<close>

definition word_pattern :: "jsstring list \<Rightarrow> jsstring" where
  "word_pattern escapedKeys =
     [backslash, of_char CHR ''b'', of_char CHR ''(''] @ join (ascii ''|'') escapedKeys @
     [of_char CHR '')'', backslash, of_char CHR ''b'']"

definition matchKeys ::
    "runtime \<Rightarrow> jsstring \<Rightarrow> jsstring list \<Rightarrow> bool \<Rightarrow> bool \<Rightarrow> js_error + bool" where
  "matchKeys rt text keys caseSensitive wholeWords =
     (if keys = [] then Inr False
      else
        let searchText = (if caseSensitive then text else toLowerCase rt text);
            searchKeys = (if caseSensitive then keys else map (toLowerCase rt) keys)
        in if wholeWords then
             (let escapedKeys = map escapeRegExp searchKeys;
                  pattern = word_pattern escapedKeys
              in case new_RegExp pattern (\<not> caseSensitive) of
                   Inl e \<Rightarrow> Inl e
                 | Inr regex \<Rightarrow> Inr (regexp_test rt regex searchText))
           else Inr (list_ex (\<lambda>key. includes_js searchText key) searchKeys))"

section \<open>The logger\<close>

text \<open>
  \<^verbatim>\<open>logger.js\<close>: every method prints to the console only when \<^verbatim>\<open>ENABLE_LOGGING\<close> is set,
  and the constant is \<^verbatim>\<open>false\<close>. The calls that reach the logger are kept as a trace of
  their own, so that what a function reports to the logger can be told from what the
  logger prints. Messages are kept by call site and arguments, not as formatted text.
\<close>

definition ENABLE_LOGGING :: bool where
  "ENABLE_LOGGING = False"

datatype log_level = DEBUG | INFO | WARN | ERROR

datatype log_message =
    ProbabilityCheckFailed jsstring real int
  | NoKeywords jsstring
  | SkipItem jsstring
  | InjectItem jsstring bool
  | InjectDetail int int int
  | ClearItem jsstring
  | RefreshAll nat
  | InjectDone nat nat
  | EntryDataEmpty
  | AddingEntry jsstring jsstring
  | EntryExists jsstring
  | EntryAdded jsstring

datatype console_method = console_log | console_warn | console_error

type_synonym console_line = "console_method \<times> jsstring \<times> log_level \<times> log_message"

section \<open>Entries, messages and the state of the page\<close>

text \<open>
  A selected item, with the fields that \<^verbatim>\<open>addSingleEntry\<close> stores. Items also arrive from
  an imported file or from saved settings, so a field that the code guards against being
  absent is an option. For \<open>key\<close>, \<open>keysecondary\<close>, \<open>scan_depth\<close> and \<open>role\<close>, \<open>None\<close> is
  \<^verbatim>\<open>undefined\<close> or \<^verbatim>\<open>null\<close>, which the code treats alike; for \<open>probability\<close> it is an absent
  field (\<^verbatim>\<open>undefined\<close>), and for \<open>depth\<close> it is \<^verbatim>\<open>null\<close>. A number is an integer. The flags
  are kept by their truthiness.
\<close>

record item =
  item_id :: jsstring
  enabled :: bool
  worldName :: jsstring
  uid :: jsstring
  name :: jsstring
  content :: jsstring
  key :: "jsstring list option"
  keysecondary :: "jsstring list option"
  "constant" :: bool
  order :: int
  depth :: "int option"
  position :: int
  role :: "int option"
  probability :: "int option"
  scan_depth :: "int option"
  case_sensitive :: bool
  match_whole_words :: bool
  sticky :: int
  cooldown :: int
  delay :: int
  selectiveLogic :: int
  disable :: bool

text \<open>A chat message; \<open>mes\<close> is its text.\<close>

record message =
  mes :: "jsstring option"

text \<open>An entry of a host world book, as \<^verbatim>\<open>loadWorldInfo\<close> hands it over.\<close>

record extensions =
  ext_depth :: "int option"
  ext_role :: "int option"
  ext_probability :: "int option"
  ext_scan_depth :: "int option"
  ext_case_sensitive :: "bool option"
  ext_match_whole_words :: "bool option"

record entryData =
  entry_comment :: "jsstring option"
  entry_content :: "jsstring option"
  entry_key :: "jsstring list option"
  entry_keysecondary :: "jsstring list option"
  entry_constant :: "bool option"
  entry_insertion_order :: "int option"
  entry_extensions :: "extensions option"
  entry_sticky :: "int option"
  entry_cooldown :: "int option"
  entry_delay :: "int option"
  entry_selectiveLogic :: "int option"
  entry_disable :: "bool option"

text \<open>What \<^verbatim>\<open>setExtensionPrompt(key, value, position, depth, scan, role)\<close> stores under a key.\<close>

record prompt =
  prompt_value :: jsstring
  prompt_position :: int
  prompt_depth :: int
  prompt_scan :: bool
  prompt_role :: int

text \<open>
  The state that the modelled functions read and write: the tool's own list, the host's
  chat and prompts, the results that \<^verbatim>\<open>Math.random()\<close> and \<^verbatim>\<open>Date.now()\<close> give, and the
  logger. The host's constants \<^verbatim>\<open>world_info_position.atDepth\<close>,
  \<^verbatim>\<open>extension_prompt_types.IN_CHAT\<close> and \<^verbatim>\<open>extension_prompt_roles.SYSTEM\<close> are fields too.
  The DOM, \<^verbatim>\<open>toastr\<close> and the host's settings store are not modelled, so
  \<^verbatim>\<open>renderActivatedItems\<close> and \<^verbatim>\<open>saveSelectedItems\<close>, which write only there, leave this
  state as it is.
\<close>

record world =
  selectedItems :: "item list"
  chat :: "message list option"
  extension_prompts :: "jsstring \<rightharpoonup> prompt"
  random_values :: "nat \<Rightarrow> random_number"
  random_calls :: nat
  now :: nat
  timestamp :: jsstring
  logger_calls :: "(log_level \<times> log_message) list"
  console :: "console_line list"
  atDepth :: int
  IN_CHAT :: int
  SYSTEM :: int

definition logger_debug :: "log_message \<Rightarrow> world \<Rightarrow> world" where
  "logger_debug m w =
     (let w' = w\<lparr>logger_calls := logger_calls w @ [(DEBUG, m)]\<rparr>
      in if ENABLE_LOGGING
         then w'\<lparr>console := console w' @ [(console_log, timestamp w', DEBUG, m)]\<rparr>
         else w')"

definition logger_info :: "log_message \<Rightarrow> world \<Rightarrow> world" where
  "logger_info m w =
     (let w' = w\<lparr>logger_calls := logger_calls w @ [(INFO, m)]\<rparr>
      in if ENABLE_LOGGING
         then w'\<lparr>console := console w' @ [(console_log, timestamp w', INFO, m)]\<rparr>
         else w')"

definition logger_warn :: "log_message \<Rightarrow> world \<Rightarrow> world" where
  "logger_warn m w =
     (let w' = w\<lparr>logger_calls := logger_calls w @ [(WARN, m)]\<rparr>
      in if ENABLE_LOGGING
         then w'\<lparr>console := console w' @ [(console_warn, timestamp w', WARN, m)]\<rparr>
         else w')"

text \<open>\<^verbatim>\<open>Math.random()\<close>: the next value of the sequence.\<close>

definition Math_random :: "world \<Rightarrow> random_number \<times> world" where
  "Math_random w = (random_values w (random_calls w), w\<lparr>random_calls := Suc (random_calls w)\<rparr>)"

section \<open>shouldActivateItem\<close>

text \<open>
  Step 3, the probability check: whether it ends the evaluation, and the state after it.
  An absent probability compares false with 100, so no value is drawn. The roll is the
  double \<^verbatim>\<open>Math.random() * 100\<close>; the probability is an integer, so the comparison of the
  two is that of their values.
\<close>

definition probability_check :: "item \<Rightarrow> world \<Rightarrow> bool \<times> world" where
  "probability_check item w =
     (case probability item of
        None \<Rightarrow> (False, w)
      | Some p \<Rightarrow>
          if p < 100 then
            (let (r, w') = Math_random w;
                 roll = times_100 r
             in if roll > real_of_int p
                then (True, logger_debug (ProbabilityCheckFailed (name item) roll p) w')
                else (False, w'))
          else (False, w))"

text \<open>Step 4: \<^verbatim>\<open>!item.key || item.key.length === 0\<close>, and the same for the secondary keys.\<close>

definition no_keys :: "jsstring list option \<Rightarrow> bool" where
  "no_keys ks = (case ks of None \<Rightarrow> True | Some xs \<Rightarrow> length xs = 0)"

text \<open>\<^verbatim>\<open>item.scan_depth || 10\<close>\<close>

definition scanDepth :: "item \<Rightarrow> int" where
  "scanDepth item = (case scan_depth item of None \<Rightarrow> 10 | Some n \<Rightarrow> if n = 0 then 10 else n)"

text \<open>\<^verbatim>\<open>m.mes || ''\<close>\<close>

definition mes_text :: "message \<Rightarrow> jsstring" where
  "mes_text m = (case mes m of None \<Rightarrow> [] | Some t \<Rightarrow> t)"

text \<open>Step 5: the text that the keywords are searched in.\<close>

definition searchText :: "item \<Rightarrow> world \<Rightarrow> jsstring" where
  "searchText item w =
     (let chat = (case chat w of None \<Rightarrow> [] | Some ms \<Rightarrow> ms);
          recentMessages = slice chat (- scanDepth item)
      in join (ascii '' '') (map mes_text recentMessages))"

text \<open>Steps 4 to 6: the warning for an entry without keywords, and the keyword match.\<close>

definition keyword_step :: "runtime \<Rightarrow> item \<Rightarrow> world \<Rightarrow> js_error + (bool \<times> world)" where
  "keyword_step rt item w =
     (if no_keys (key item) \<and> no_keys (keysecondary item)
      then Inr (False, logger_warn (NoKeywords (name item)) w)
      else
        (case matchKeys rt (searchText item w)
                (case key item of None \<Rightarrow> [] | Some ks \<Rightarrow> ks)
                (case_sensitive item) (match_whole_words item) of
           Inl e \<Rightarrow> Inl e
         | Inr primaryMatch \<Rightarrow>
             (case (case keysecondary item of
                      None \<Rightarrow> Inr False
                    | Some ks \<Rightarrow>
                        if length ks > 0
                        then matchKeys rt (searchText item w) ks
                               (case_sensitive item) (match_whole_words item)
                        else Inr False) of
                Inl e \<Rightarrow> Inl e
              | Inr secondaryMatch \<Rightarrow> Inr (primaryMatch \<or> secondaryMatch, w))))"

definition shouldActivateItem ::
    "runtime \<Rightarrow> item \<Rightarrow> world \<Rightarrow> js_error + (bool \<times> world)" where
  "shouldActivateItem rt item w =
     (if constant item then Inr (True, w)
      else if disable item then Inr (False, w)
      else
        let (blocked, w1) = probability_check item w
        in if blocked then Inr (False, w1) else keyword_step rt item w1)"

section \<open>updateItemPrompt and injectAllItems\<close>

text \<open>
  \<^verbatim>\<open>setExtensionPrompt\<close> is the host's sink: a write under a key, as section 6 of the
  specification describes it.
\<close>

definition setExtensionPrompt ::
    "jsstring \<Rightarrow> jsstring \<Rightarrow> int \<Rightarrow> int \<Rightarrow> bool \<Rightarrow> int \<Rightarrow> world \<Rightarrow> world" where
  "setExtensionPrompt k v pos d scan r w =
     w\<lparr>extension_prompts := (extension_prompts w)
          (k \<mapsto> \<lparr>prompt_value = v, prompt_position = pos, prompt_depth = d,
                  prompt_scan = scan, prompt_role = r\<rparr>)\<rparr>"

definition updateItemPrompt :: "runtime \<Rightarrow> item \<Rightarrow> world \<Rightarrow> js_error + world" where
  "updateItemPrompt rt item w =
     (let k = ascii ''paws_wi_'' @ item_id item
      in if enabled item then
           (case shouldActivateItem rt item w of
              Inl e \<Rightarrow> Inl e
            | Inr (shouldActivate, w1) \<Rightarrow>
                if \<not> shouldActivate then
                  Inr (setExtensionPrompt k [] (IN_CHAT w1) 0 False (SYSTEM w1)
                         (logger_debug (SkipItem (name item)) w1))
                else
                  (let d = (case depth item of None \<Rightarrow> 4 | Some n \<Rightarrow> n);
                       r = (case role item of None \<Rightarrow> SYSTEM w1 | Some n \<Rightarrow> n);
                       w2 = logger_debug (InjectItem (name item) (constant item)) w1;
                       w3 = logger_debug
                              (InjectDetail d r (if order item = 0 then 100 else order item)) w2
                   in Inr (setExtensionPrompt k (content item) (IN_CHAT w3) d False r w3)))
         else
           Inr (setExtensionPrompt k [] (IN_CHAT w) 0 False (SYSTEM w)
                  (logger_debug (ClearItem (name item)) w)))"

text \<open>The loop of \<^verbatim>\<open>this.selectedItems.forEach(item => this.updateItemPrompt(item))\<close>.\<close>

fun forEach_updateItemPrompt :: "runtime \<Rightarrow> item list \<Rightarrow> world \<Rightarrow> js_error + world" where
  "forEach_updateItemPrompt rt [] w = Inr w"
| "forEach_updateItemPrompt rt (item # items) w =
     (case updateItemPrompt rt item w of
        Inl e \<Rightarrow> Inl e
      | Inr w' \<Rightarrow> forEach_updateItemPrompt rt items w')"

definition injectAllItems :: "runtime \<Rightarrow> world \<Rightarrow> js_error + world" where
  "injectAllItems rt w =
     (let w1 = logger_debug (RefreshAll (length (selectedItems w))) w
      in case forEach_updateItemPrompt rt (selectedItems w1) w1 of
           Inl e \<Rightarrow> Inl e
         | Inr w2 \<Rightarrow>
             (let enabledCount = length (filter enabled (selectedItems w2))
              in Inr (logger_debug (InjectDone enabledCount (length (selectedItems w2))) w2)))"

section \<open>addSingleEntry\<close>

text \<open>The two default names of an entry without a comment, five and three characters.\<close>

definition unnamed_entry :: jsstring where
  "unnamed_entry = [0x672A, 0x547D, 0x540D, 0x6761, 0x76EE]"

definition unnamed :: jsstring where
  "unnamed = [0x672A, 0x547D, 0x540D]"

text \<open>
  \<^verbatim>\<open>x || d\<close> on a field that may be absent: the default replaces an absent value and
  every falsy one, which is 0 for a number, the empty string for a string and \<^verbatim>\<open>false\<close>
  for a flag. An array is never falsy.
\<close>

definition or_number :: "int option \<Rightarrow> int \<Rightarrow> int" where
  "or_number x d = (case x of None \<Rightarrow> d | Some n \<Rightarrow> if n = 0 then d else n)"

definition or_string :: "jsstring option \<Rightarrow> jsstring \<Rightarrow> jsstring" where
  "or_string x d = (case x of None \<Rightarrow> d | Some t \<Rightarrow> if t = [] then d else t)"

definition or_false :: "bool option \<Rightarrow> bool" where
  "or_false x = (case x of None \<Rightarrow> False | Some b \<Rightarrow> b)"

definition or_empty :: "jsstring list option \<Rightarrow> jsstring list" where
  "or_empty x = (case x of None \<Rightarrow> [] | Some ks \<Rightarrow> ks)"

text \<open>\<^verbatim>\<open>x || null\<close>\<close>

definition or_null :: "int option \<Rightarrow> int option" where
  "or_null x = (case x of None \<Rightarrow> None | Some n \<Rightarrow> if n = 0 then None else Some n)"

text \<open>\<^verbatim>\<open>entryData.extensions?.field\<close>\<close>

definition optional_chain :: "extensions option \<Rightarrow> (extensions \<Rightarrow> 'a option) \<Rightarrow> 'a option" where
  "optional_chain ext field = (case ext of None \<Rightarrow> None | Some x \<Rightarrow> field x)"

text \<open>The decimal digits of a number, as a template literal prints them.\<close>

function decimal :: "nat \<Rightarrow> jsstring" where
  "decimal n =
     (if n < 10 then [ascii ''0123456789'' ! n]
      else decimal (n div 10) @ [ascii ''0123456789'' ! (n mod 10)])"
  by pat_completeness auto
termination
  by (relation "measure (\<lambda>n. n)") auto

text \<open>The object that \<^verbatim>\<open>addSingleEntry\<close> pushes.\<close>

definition new_item :: "jsstring \<Rightarrow> jsstring \<Rightarrow> entryData \<Rightarrow> world \<Rightarrow> item" where
  "new_item wn u entry w =
     \<lparr>item_id = wn @ ascii ''_'' @ u @ ascii ''_'' @ decimal (now w),
      enabled = True,
      worldName = wn,
      uid = u,
      name = or_string (entry_comment entry) unnamed_entry,
      content = or_string (entry_content entry) [],
      key = Some (or_empty (entry_key entry)),
      keysecondary = Some (or_empty (entry_keysecondary entry)),
      constant = or_false (entry_constant entry),
      order = or_number (entry_insertion_order entry) 100,
      depth = Some (or_number (optional_chain (entry_extensions entry) ext_depth) 4),
      position = atDepth w,
      role = Some (or_number (optional_chain (entry_extensions entry) ext_role) 0),
      probability = Some (or_number (optional_chain (entry_extensions entry) ext_probability) 100),
      scan_depth = or_null (optional_chain (entry_extensions entry) ext_scan_depth),
      case_sensitive = or_false (optional_chain (entry_extensions entry) ext_case_sensitive),
      match_whole_words = or_false (optional_chain (entry_extensions entry) ext_match_whole_words),
      sticky = or_number (entry_sticky entry) 0,
      cooldown = or_number (entry_cooldown entry) 0,
      delay = or_number (entry_delay entry) 0,
      selectiveLogic = or_number (entry_selectiveLogic entry) 0,
      disable = or_false (entry_disable entry)\<rparr>"

definition addSingleEntry ::
    "runtime \<Rightarrow> jsstring \<Rightarrow> jsstring \<Rightarrow> entryData option \<Rightarrow> world \<Rightarrow> js_error + world" where
  "addSingleEntry rt wn u entryData w =
     (case entryData of
        None \<Rightarrow> Inr (logger_warn EntryDataEmpty w)
      | Some entry \<Rightarrow>
          (let w1 = logger_debug (AddingEntry (or_string (entry_comment entry) unnamed) wn) w;
               exists = list_ex (\<lambda>item. worldName item = wn \<and> uid item = u) (selectedItems w1)
           in if exists
              then Inr (logger_warn (EntryExists (or_string (entry_comment entry) u)) w1)
              else
                (let w2 = w1\<lparr>selectedItems := selectedItems w1 @ [new_item wn u entry w1]\<rparr>
                 in case injectAllItems rt w2 of
                      Inl e \<Rightarrow> Inl e
                    | Inr w3 \<Rightarrow>
                        Inr (logger_info
                               (EntryAdded (or_string (entry_comment entry) unnamed_entry)) w3))))"

section \<open>Example entries and states\<close>

text \<open>
  A runtime for the examples: \<open>toLowerCase\<close> and \<open>Canonicalize\<close> as ECMAScript has them on
  ASCII and on the letters \<open>E\<close> with acute (C9, E9), \<open>I\<close> with diaeresis (CF, EF), the micro
  sign (B5) and the Greek mu (39C, 3BC).
\<close>

definition example_toLowerCase :: "code_unit \<Rightarrow> code_unit" where
  "example_toLowerCase c =
     (if 65 \<le> c \<and> c \<le> 90 then c + 32
      else if c = 0xC9 then 0xE9 else if c = 0xCF then 0xEF else if c = 0x39C then 0x3BC
      else c)"

definition example_Canonicalize :: "code_unit \<Rightarrow> code_unit" where
  "example_Canonicalize c =
     (if 97 \<le> c \<and> c \<le> 122 then c - 32
      else if c = 0xE9 then 0xC9 else if c = 0xEF then 0xCF
      else if c = 0xB5 \<or> c = 0x3BC then 0x39C
      else c)"

definition example_runtime :: runtime where
  "example_runtime =
     \<lparr>toLowerCase = map example_toLowerCase, Canonicalize = example_Canonicalize\<rparr>"

definition example_item :: item where
  "example_item =
     \<lparr>item_id = ascii ''lore_7_1700000000000'', enabled = True, worldName = ascii ''lore'',
      uid = ascii ''7'', name = ascii ''Dragon'',
      content = ascii ''Dragons sleep under the northern hills.'',
      key = Some [ascii ''dragon''], keysecondary = Some [], constant = False, order = 100,
      depth = Some 4, position = 4, role = Some 0, probability = Some 100,
      scan_depth = None, case_sensitive = False, match_whole_words = False,
      sticky = 0, cooldown = 0, delay = 0, selectiveLogic = 0, disable = False\<rparr>"

text \<open>Math.random() gives 0.75 in this state, so the roll is 75.\<close>

definition example_world :: world where
  "example_world =
     \<lparr>selectedItems = [example_item],
      chat = Some [\<lparr>mes = Some (ascii ''We saw a dragon today.'')\<rparr>],
      extension_prompts = Map.empty,
      random_values = (\<lambda>n. \<lparr>mantissa = 3, binary_places = 2\<rparr>), random_calls = 0,
      now = 1700000000000, timestamp = ascii ''12:00:00'',
      logger_calls = [], console = [],
      atDepth = 4, IN_CHAT = 1, SYSTEM = 0\<rparr>"

text \<open>The double 0.27, which is \<open>607985949695017 / 2 ^ 51\<close>.\<close>

definition double_0_27 :: random_number where
  "double_0_27 = \<lparr>mantissa = 607985949695017, binary_places = 51\<rparr>"


definition long_chat_world :: world where
  "long_chat_world =
     example_world\<lparr>chat := Some (replicate 20 \<lparr>mes = Some (ascii ''filler'')\<rparr> @
                                    [\<lparr>mes = Some (ascii ''We saw a dragon today.'')\<rparr>]),
                   selectedItems := [],
                   logger_calls := [(INFO, EntryAdded (ascii ''Dragon''))]\<rparr>"

definition host_extensions :: extensions where
  "host_extensions =
     \<lparr>ext_depth = None, ext_role = None, ext_probability = Some 0, ext_scan_depth = Some 0,
      ext_case_sensitive = None, ext_match_whole_words = Some True\<rparr>"

definition host_entry :: entryData where
  "host_entry =
     \<lparr>entry_comment = Some (ascii ''Castle''),
      entry_content = Some (ascii ''The castle is old.''),
      entry_key = Some [ascii ''castle''], entry_keysecondary = None, entry_constant = None,
      entry_insertion_order = Some 0, entry_extensions = Some host_extensions,
      entry_sticky = None, entry_cooldown = None, entry_delay = None,
      entry_selectiveLogic = None, entry_disable = Some False\<rparr>"

section \<open>Notions that the statements use\<close>

text \<open>The text or keyword as the match sees it: lower-cased unless the match is case-sensitive.\<close>

definition case_fold :: "runtime \<Rightarrow> bool \<Rightarrow> jsstring \<Rightarrow> jsstring" where
  "case_fold rt caseSensitive t = (if caseSensitive then t else toLowerCase rt t)"

text \<open>
  A copy of \<open>k\<close> stands at position \<open>e\<close> of \<open>s\<close>, the code units compared through \<open>canon\<close>.
\<close>

definition matches_at :: "(code_unit \<Rightarrow> code_unit) \<Rightarrow> jsstring \<Rightarrow> jsstring \<Rightarrow> nat \<Rightarrow> bool" where
  "matches_at canon s k e =
     (e + length k \<le> length s \<and> map canon (take (length k) (drop e s)) = map canon k)"

text \<open>
  A keyword occurs as a whole word where a copy of it starts and ends at a word boundary
  of the text.
\<close>

definition whole_word_at :: "(code_unit \<Rightarrow> code_unit) \<Rightarrow> jsstring \<Rightarrow> jsstring \<Rightarrow> nat \<Rightarrow> bool" where
  "whole_word_at canon s k e =
     (isWordBoundary s e \<and> matches_at canon s k e \<and> isWordBoundary s (e + length k))"

definition occurs_as_whole_word :: "(code_unit \<Rightarrow> code_unit) \<Rightarrow> jsstring \<Rightarrow> jsstring \<Rightarrow> bool" where
  "occurs_as_whole_word canon k s = list_ex (whole_word_at canon s k) [0 ..< Suc (length s)]"

text \<open>Two word boundaries of \<open>s\<close> that are \<open>n\<close> code units apart.\<close>

definition has_word_slot :: "jsstring \<Rightarrow> nat \<Rightarrow> bool" where
  "has_word_slot s n =
     list_ex (\<lambda>e. isWordBoundary s e \<and> e + n \<le> length s \<and> isWordBoundary s (e + n))
       [0 ..< Suc (length s)]"

text \<open>The regular expression \<^verbatim>\<open>\b(k1|k2|...)\b\<close> with every keyword taken literally.\<close>

definition literal :: "jsstring \<Rightarrow> regex" where
  "literal k = foldl Seq Empty (map Lit k)"

fun alternation :: "regex list \<Rightarrow> regex" where
  "alternation [] = Empty"
| "alternation (r # rs) = foldl Alt r rs"

definition word_regex :: "jsstring list \<Rightarrow> regex" where
  "word_regex ks = Seq (Seq (Seq Empty WordB) (Group (alternation (map literal ks)))) WordB"


text \<open>The messages of the chat, none when the host has no chat.\<close>

definition chat_messages :: "world \<Rightarrow> message list" where
  "chat_messages w = (case chat w of None \<Rightarrow> [] | Some ms \<Rightarrow> ms)"

text \<open>The value of the double that \<^verbatim>\<open>Math.random() * 100\<close> gives at the next call.\<close>

definition next_roll :: "world \<Rightarrow> real" where
  "next_roll w = times_100 (random_values w (random_calls w))"

text \<open>The state after one call of \<^verbatim>\<open>Math.random()\<close>.\<close>

definition drawn :: "world \<Rightarrow> world" where
  "drawn w = w\<lparr>random_calls := Suc (random_calls w)\<rparr>"

text \<open>The calls of \<^verbatim>\<open>logger.warn\<close> among the calls that reached the logger.\<close>

definition warnings :: "world \<Rightarrow> log_message list" where
  "warnings w = map snd (filter (\<lambda>c. fst c = WARN) (logger_calls w))"

text \<open>Whether \<^verbatim>\<open>shouldActivateItem\<close> activates the entry in a state.\<close>

definition activates :: "runtime \<Rightarrow> item \<Rightarrow> world \<Rightarrow> bool" where
  "activates rt item w =
     (case shouldActivateItem rt item w of Inl e \<Rightarrow> False | Inr (b, w') \<Rightarrow> b)"

text \<open>Whether the probability check draws a value: the probability is present and below 100.\<close>

definition draws :: "item \<Rightarrow> bool" where
  "draws item = (case probability item of None \<Rightarrow> False | Some p \<Rightarrow> p < 100)"

text \<open>Whether the probability check ends the evaluation: the roll exceeds the probability.\<close>

definition gate_blocks :: "item \<Rightarrow> world \<Rightarrow> bool" where
  "gate_blocks item w =
     (case probability item of None \<Rightarrow> False | Some p \<Rightarrow> p < 100 \<and> real_of_int p < next_roll w)"

text \<open>The state in which an entry that passed the probability check goes on.\<close>

definition after_gate :: "item \<Rightarrow> world \<Rightarrow> world" where
  "after_gate item w = (if draws item then drawn w else w)"

text \<open>The match of the primary keys or, when there are secondary keys, of the secondary keys.\<close>

definition keyword_match :: "runtime \<Rightarrow> item \<Rightarrow> jsstring \<Rightarrow> bool" where
  "keyword_match rt item t =
     (matchKeys rt t (or_empty (key item)) (case_sensitive item) (match_whole_words item)
        = Inr True \<or>
      \<not> no_keys (keysecondary item) \<and>
      matchKeys rt t (or_empty (keysecondary item)) (case_sensitive item) (match_whole_words item)
        = Inr True)"

section \<open>Tokens and parse of the pattern\<close>

definition lits :: "jsstring \<Rightarrow> token list" where
  "lits k = map (\<lambda>c. TAtom (Lit c)) k"

fun key_tokens :: "jsstring list \<Rightarrow> token list" where
  "key_tokens [] = []"
| "key_tokens [k] = lits k"
| "key_tokens (k # k' # ks) = lits k @ TBar # key_tokens (k' # ks)"

fun alt_frame :: "regex option \<Rightarrow> jsstring list \<Rightarrow> frame" where
  "alt_frame a [] = (a, Empty)"
| "alt_frame a [k] = (a, literal k)"
| "alt_frame a (k # k' # ks) = alt_frame (Some (finish (a, literal k))) (k' # ks)"

section \<open>The double product with 100\<close>

lemma two_53: "(9007199254740992::nat) = 2 ^ 53"
  by simp

lemma excess_bits_upper: "M < 2 ^ 53 * 2 ^ excess_bits M"
proof (induction M rule: excess_bits.induct)
  case (1 M)
  show ?case
  proof (cases "M < 9007199254740992")
    case True
    then show ?thesis by (simp add: excess_bits.simps [of M])
  next
    case False
    then have "M div 2 < 2 ^ 53 * 2 ^ excess_bits (M div 2)"
      using 1 by simp
    then have "M < 2 * (2 ^ 53 * 2 ^ excess_bits (M div 2))"
      by linarith
    with False show ?thesis by (simp add: excess_bits.simps [of M])
  qed
qed

lemma excess_bits_lower: "0 < excess_bits M \<Longrightarrow> 2 ^ 52 * 2 ^ excess_bits M \<le> M"
proof (induction M rule: excess_bits.induct)
  case (1 M)
  from "1.prems" have big: "\<not> M < 9007199254740992"
    by (auto simp: excess_bits.simps [of M] split: if_splits)
  then have s: "excess_bits M = Suc (excess_bits (M div 2))"
    by (simp add: excess_bits.simps [of M])
  show ?case
  proof (cases "0 < excess_bits (M div 2)")
    case True
    then have "2 ^ 52 * 2 ^ excess_bits (M div 2) \<le> M div 2"
      using 1 big by simp
    then have "2 * (2 ^ 52 * 2 ^ excess_bits (M div 2)) \<le> M"
      by linarith
    then show ?thesis by (simp add: s)
  next
    case False
    with big show ?thesis by (simp add: s)
  qed
qed

lemma round_nearest_even_zero: "round_nearest_even M 0 = M"
  by (simp add: round_nearest_even_def)

lemma round_nearest_even_error:
  "2 * (round_nearest_even M s * 2 ^ s) \<le> 2 * M + 2 ^ s \<and>
   2 * M \<le> 2 * (round_nearest_even M s * 2 ^ s) + 2 ^ s"
proof -
  define q where "q = M div 2 ^ s"
  define r where "r = M mod 2 ^ s"
  have M: "M = q * 2 ^ s + r"
    unfolding q_def r_def by (rule div_mult_mod_eq [symmetric])
  have r: "r < 2 ^ s"
    by (simp add: r_def)
  have rne: "round_nearest_even M s =
               (if 2 ^ s < 2 * r \<or> (2 * r = 2 ^ s \<and> odd q) then q + 1 else q)"
    by (simp add: round_nearest_even_def q_def r_def Let_def)
  show ?thesis
  proof (cases "2 ^ s < 2 * r \<or> (2 * r = 2 ^ s \<and> odd q)")
    case True
    then have "round_nearest_even M s = q + 1"
      by (simp only: rne if_True)
    moreover from True have "2 ^ s \<le> 2 * r"
      by auto
    ultimately show ?thesis
      using r by (simp add: M algebra_simps)
  next
    case False
    then have "round_nearest_even M s = q"
      by (simp only: rne if_False)
    moreover from False have "2 * r \<le> 2 ^ s"
      by auto
    ultimately show ?thesis
      by (simp add: M algebra_simps)
  qed
qed

lemma times_100_eq:
  "times_100 d =
     real (round_nearest_even (mantissa d * 100) (excess_bits (mantissa d * 100)) *
           2 ^ excess_bits (mantissa d * 100)) / 2 ^ binary_places d"
  by (simp add: times_100_def Let_def)

lemma product_rounding:
  assumes m53: "m < 2 ^ 53" and mk: "m < 2 ^ k"
  defines "s \<equiv> excess_bits (m * 100)"
  defines "q \<equiv> round_nearest_even (m * 100) s"
  shows "q * 2 ^ s < 100 * 2 ^ k \<and>
         2 ^ 46 * (2 * (q * 2 ^ s)) \<le> 2 ^ 46 * (200 * m) + 2 ^ k \<and>
         2 ^ 46 * (200 * m) \<le> 2 ^ 46 * (2 * (q * 2 ^ s)) + 2 ^ k"
proof (cases "s = 0")
  case True
  then have "q = m * 100"
    by (simp add: q_def round_nearest_even_zero)
  with True mk show ?thesis
    by simp
next
  case False
  have err: "2 * (q * 2 ^ s) \<le> 2 * (m * 100) + 2 ^ s"
            "2 * (m * 100) \<le> 2 * (q * 2 ^ s) + 2 ^ s"
    using round_nearest_even_error [of "m * 100" s] by (simp_all add: q_def)
  from False have "2 ^ 52 * 2 ^ s \<le> m * 100"
    using excess_bits_lower [of "m * 100"] by (simp add: s_def)
  also have "m * 100 < 128 * 2 ^ k"
    using mk by simp
  finally have "(2::nat) ^ (52 + s) < 2 ^ (7 + k)"
    by (simp add: power_add)
  then have sk: "s + 46 \<le> k"
    by simp
  then have "(2::nat) ^ (s + 46) \<le> 2 ^ k"
    by (rule power_increasing) simp
  then have grid: "2 ^ 46 * (2::nat) ^ s \<le> 2 ^ k"
    by (simp add: power_add mult.commute)
  have up: "2 ^ 46 * (2 * (q * 2 ^ s)) \<le> 2 ^ 46 * (200 * m) + 2 ^ k"
  proof -
    have "2 ^ 46 * (2 * (q * 2 ^ s)) \<le> 2 ^ 46 * (2 * (m * 100) + 2 ^ s)"
      using err(1) by (rule mult_le_mono2)
    also have "\<dots> = 2 ^ 46 * (200 * m) + 2 ^ 46 * 2 ^ s"
      by (simp add: algebra_simps)
    finally show ?thesis
      using grid by linarith
  qed
  have down: "2 ^ 46 * (200 * m) \<le> 2 ^ 46 * (2 * (q * 2 ^ s)) + 2 ^ k"
  proof -
    have "2 ^ 46 * (2 * (m * 100)) \<le> 2 ^ 46 * (2 * (q * 2 ^ s) + 2 ^ s)"
      using err(2) by (rule mult_le_mono2)
    also have "\<dots> = 2 ^ 46 * (2 * (q * 2 ^ s)) + 2 ^ 46 * 2 ^ s"
      by (simp add: algebra_simps)
    finally show ?thesis
      using grid by (simp add: mult.commute) 
  qed
  have "2 * (q * 2 ^ s) < 200 * 2 ^ k"
  proof (cases "k \<le> 53")
    case True
    with sk have "s \<le> 7" by simp
    then have "(2::nat) ^ s \<le> 2 ^ 7"
      by (rule power_increasing) simp
    moreover have "200 * m + 200 \<le> 200 * 2 ^ k"
      using mk by simp
    ultimately show ?thesis
      using err(1) by simp
  next
    case False
    then have "(2::nat) ^ 53 \<le> 2 ^ (k - 1)"
      by (intro power_increasing) simp_all
    with m53 have "m < 2 ^ (k - 1)"
      by simp
    moreover have "(2::nat) ^ k = 2 * 2 ^ (k - 1)"
      using False by (cases k) simp_all
    moreover have "(2::nat) ^ s \<le> 2 ^ k"
      using sk by (intro power_increasing) simp_all
    ultimately show ?thesis
      using err(1) by simp
  qed
  with up down show ?thesis
    by simp
qed

lemma times_100_range:
  assumes "is_random_number d"
  shows "0 \<le> times_100 d \<and> times_100 d < 100 \<and>
         \<bar>times_100 d - 100 * number_value d\<bar> \<le> 1 / 2 ^ 47"
proof -
  let ?m = "mantissa d" and ?k = "binary_places d"
  let ?s = "excess_bits (?m * 100)"
  let ?q = "round_nearest_even (?m * 100) ?s"
  define X where "X = real (?q * 2 ^ ?s)"
  define Y where "Y = 100 * real ?m"
  define K where "K = (2::real) ^ ?k"
  have m: "?m < 2 ^ 53" "?m < 2 ^ ?k"
    using assms by (simp_all add: is_random_number_def)
  note n = product_rounding [OF m]
  have K: "0 < K"
    by (simp add: K_def)
  have t: "times_100 d = X / K"
    by (simp add: times_100_eq X_def K_def)
  have v: "100 * number_value d = Y / K"
    by (simp add: number_value_def Y_def K_def)
  have "real (?q * 2 ^ ?s) < real (100 * 2 ^ ?k)"
    using n by (simp only: of_nat_less_iff)
  then have lt: "X < 100 * K"
    by (simp add: X_def K_def)
  have "real (2 ^ 46 * (2 * (?q * 2 ^ ?s))) \<le> real (2 ^ 46 * (200 * ?m) + 2 ^ ?k)"
    using n by (simp only: of_nat_le_iff)
  then have up: "2 ^ 47 * X \<le> 2 ^ 47 * Y + K"
    by (simp add: X_def Y_def K_def)
  have "real (2 ^ 46 * (200 * ?m)) \<le> real (2 ^ 46 * (2 * (?q * 2 ^ ?s)) + 2 ^ ?k)"
    using n by (simp only: of_nat_le_iff)
  then have down: "2 ^ 47 * Y \<le> 2 ^ 47 * X + K"
    by (simp add: X_def Y_def K_def)
  have "0 \<le> X"
    by (simp add: X_def)
  then have "0 \<le> X / K"
    using K by simp
  moreover have "X / K < 100"
    using lt K by (simp add: divide_less_eq)
  moreover have "\<bar>X / K - Y / K\<bar> \<le> 1 / 2 ^ 47"
  proof -
    have "X - Y \<le> K / 2 ^ 47"
      using up by (simp add: field_simps)
    moreover have "Y - X \<le> K / 2 ^ 47"
      using down by (simp add: field_simps)
    ultimately have "\<bar>X - Y\<bar> \<le> K / 2 ^ 47"
      by linarith
    then have "\<bar>X - Y\<bar> / K \<le> (K / 2 ^ 47) / K"
      using K by (intro divide_right_mono) simp_all
    then show ?thesis
      using K by (simp add: diff_divide_distrib [symmetric] abs_divide)
  qed
  ultimately show ?thesis
    by (simp add: t v)
qed

section \<open>The pattern of matchKeys always compiles\<close>

lemma tokens_escapeRegExp:
  "tokens (escapeRegExp k @ rest) =
     (case tokens rest of Inl e \<Rightarrow> Inl e | Inr ts \<Rightarrow> Inr (lits k @ ts))"
proof (induction k)
  case Nil
  show ?case by (simp add: lits_def split: sum.splits)
next
  case (Cons c cs)
  show ?case
  proof (cases "c \<in> set syntax_characters")
    case True
    then have "c \<noteq> of_char CHR ''b''" "c \<noteq> of_char CHR ''B''"
      by (auto simp: syntax_characters_def backslash_def ascii_def)
    with True Cons show ?thesis
      by (simp add: lits_def prepend_def split: sum.splits)
  next
    case False
    then have "c \<noteq> backslash" "c \<noteq> of_char CHR ''(''" "c \<noteq> of_char CHR '')''"
        "c \<noteq> of_char CHR ''|''"
      by (auto simp: syntax_characters_def ascii_def)
    with False Cons show ?thesis
      by (simp add: lits_def prepend_def split: sum.splits)
  qed
qed

lemma tokens_bar: "tokens (of_char CHR ''|'' # rest) = prepend TBar (tokens rest)"
  by (simp add: backslash_def)

lemma tokens_join:
  "tokens (join (ascii ''|'') (map escapeRegExp ks) @ rest) =
     (case tokens rest of Inl e \<Rightarrow> Inl e | Inr ts \<Rightarrow> Inr (key_tokens ks @ ts))"
proof (induction ks rule: key_tokens.induct)
  case 1
  show ?case by (simp split: sum.splits)
next
  case (2 k)
  show ?case by (simp add: tokens_escapeRegExp split: sum.splits)
next
  case (3 k k' ks)
  have "tokens (join (ascii ''|'') (map escapeRegExp (k # k' # ks)) @ rest) =
        tokens (escapeRegExp k @
                (of_char CHR ''|'' # (join (ascii ''|'') (map escapeRegExp (k' # ks)) @ rest)))"
    by (simp add: ascii_def)
  also have "\<dots> = (case tokens rest of Inl e \<Rightarrow> Inl e
                    | Inr ts \<Rightarrow> Inr (key_tokens (k # k' # ks) @ ts))"
    using 3 by (simp only: tokens_escapeRegExp tokens_bar)
               (simp add: prepend_def split: sum.splits)
  finally show ?case .
qed

lemma tokens_word_pattern:
  "tokens (word_pattern (map escapeRegExp ks)) =
     Inr (TAtom WordB # TOpen # key_tokens ks @ [TClose, TAtom WordB])"
proof -
  have tail: "tokens [of_char CHR '')'', backslash, of_char CHR ''b''] = Inr [TClose, TAtom WordB]"
    by (simp add: backslash_def prepend_def)
  have "tokens (word_pattern (map escapeRegExp ks)) =
        prepend (TAtom WordB) (prepend TOpen
          (tokens (join (ascii ''|'') (map escapeRegExp ks) @
                   [of_char CHR '')'', backslash, of_char CHR ''b''])))"
    by (simp add: word_pattern_def backslash_def)
  then show ?thesis
    by (simp only: tokens_join tail) (simp add: prepend_def)
qed

lemma parse_lits:
  "parse_tokens (lits k @ ts) (a, s) stack =
     parse_tokens ts (a, foldl Seq s (map Lit k)) stack"
  by (induction k arbitrary: s) (simp_all add: lits_def)

lemma parse_literal:
  "parse_tokens (lits k @ ts) (a, Empty) stack = parse_tokens ts (a, literal k) stack"
  by (simp add: parse_lits literal_def)

lemma parse_key_tokens:
  "parse_tokens (key_tokens ks @ ts) (a, Empty) stack = parse_tokens ts (alt_frame a ks) stack"
proof (induction a ks rule: alt_frame.induct)
  case (1 a)
  show ?case by simp
next
  case (2 a k)
  show ?case by (simp add: parse_literal)
next
  case (3 a k k' ks)
  have "parse_tokens (key_tokens (k # k' # ks) @ ts) (a, Empty) stack =
        parse_tokens (key_tokens (k' # ks) @ ts) (Some (finish (a, literal k)), Empty) stack"
    by (simp add: parse_literal)
  also have "\<dots> = parse_tokens ts (alt_frame a (k # k' # ks)) stack"
    using 3 by simp
  finally show ?case .
qed

lemma finish_alt_frame_Some:
  "ks \<noteq> [] \<Longrightarrow> finish (alt_frame (Some a) ks) = foldl Alt a (map literal ks)"
  by (induction "Some a" ks arbitrary: a rule: alt_frame.induct) (simp_all add: finish_def)

lemma finish_alt_frame_None: "finish (alt_frame None ks) = alternation (map literal ks)"
proof (cases ks rule: key_tokens.cases)
  case 1
  then show ?thesis by (simp add: finish_def)
next
  case (2 k)
  then show ?thesis by (simp add: finish_def)
next
  case (3 k k' ks')
  then show ?thesis by (simp add: finish_alt_frame_Some) (simp add: finish_def)
qed

lemma new_RegExp_word_pattern:
  "new_RegExp (word_pattern (map escapeRegExp ks)) i =
     Inr \<lparr>ignoreCase = i, parsed = word_regex ks\<rparr>"
proof -
  have "parse_tokens (TAtom WordB # TOpen # key_tokens ks @ [TClose, TAtom WordB]) (None, Empty) []
        = parse_tokens (key_tokens ks @ [TClose, TAtom WordB]) (None, Empty) [(None, Seq Empty WordB)]"
    by simp
  also have "\<dots> = parse_tokens [TClose, TAtom WordB] (alt_frame None ks) [(None, Seq Empty WordB)]"
    by (rule parse_key_tokens)
  also have "\<dots> = Inr (word_regex ks)"
    by (simp add: word_regex_def finish_alt_frame_None) (simp add: finish_def)
  finally show ?thesis
    by (simp add: new_RegExp_def tokens_word_pattern)
qed

section \<open>What the compiled pattern matches\<close>

lemma matches_at_Nil: "matches_at canon s [] e = (e \<le> length s)"
  by (simp add: matches_at_def)

lemma matches_at_snoc:
  "matches_at canon s (k @ [c]) e =
     (matches_at canon s k e \<and> e + length k < length s \<and>
      canon (s ! (e + length k)) = canon c)"
proof (cases "e + length k < length s")
  case True
  then have "take (Suc (length k)) (drop e s) = take (length k) (drop e s) @ [s ! (e + length k)]"
    by (simp add: take_Suc_conv_app_nth)
  with True show ?thesis by (auto simp: matches_at_def)
next
  case False
  then show ?thesis by (auto simp: matches_at_def)
qed

lemma ends_literal:
  assumes "e \<le> length s"
  shows "x \<in> set (ends canon s (literal k) e) \<longleftrightarrow> matches_at canon s k e \<and> x = e + length k"
proof (induction k arbitrary: x rule: rev_induct)
  case Nil
  show ?case using assms by (auto simp: literal_def matches_at_Nil)
next
  case (snoc c k)
  have "x \<in> set (ends canon s (literal (k @ [c])) e) \<longleftrightarrow>
        (\<exists>y. y \<in> set (ends canon s (literal k) e) \<and> x \<in> set (ends canon s (Lit c) y))"
    by (auto simp: literal_def)
  also have "\<dots> \<longleftrightarrow> matches_at canon s (k @ [c]) e \<and> x = e + length (k @ [c])"
    unfolding snoc by (auto simp: matches_at_snoc)
  finally show ?case .
qed

lemma ends_foldl_Alt:
  "x \<in> set (ends canon s (foldl Alt r rs) e) \<longleftrightarrow>
     x \<in> set (ends canon s r e) \<or> (\<exists>r'\<in>set rs. x \<in> set (ends canon s r' e))"
  by (induction rs arbitrary: r) auto

lemma ends_alternation:
  assumes "e \<le> length s" "ks \<noteq> []"
  shows "x \<in> set (ends canon s (alternation (map literal ks)) e) \<longleftrightarrow>
         (\<exists>k\<in>set ks. matches_at canon s k e \<and> x = e + length k)"
proof -
  obtain k ks' where ks: "ks = k # ks'"
    using assms(2) by (cases ks) auto
  show ?thesis
    unfolding ks by (auto simp: ends_foldl_Alt ends_literal [OF assms(1)])
qed

lemma ends_word_regex:
  assumes "e \<le> length s" "ks \<noteq> []"
  shows "ends canon s (word_regex ks) e \<noteq> [] \<longleftrightarrow>
         isWordBoundary s e \<and>
         (\<exists>k\<in>set ks. matches_at canon s k e \<and> isWordBoundary s (e + length k))"
proof -
  have "ends canon s (word_regex ks) e \<noteq> [] \<longleftrightarrow> (\<exists>x. x \<in> set (ends canon s (word_regex ks) e))"
    by (cases "ends canon s (word_regex ks) e") auto
  also have "\<dots> \<longleftrightarrow> isWordBoundary s e \<and>
         (\<exists>x. x \<in> set (ends canon s (alternation (map literal ks)) e) \<and> isWordBoundary s x)"
    by (auto simp: word_regex_def split: if_splits)
  also have "\<dots> \<longleftrightarrow> isWordBoundary s e \<and>
         (\<exists>k\<in>set ks. matches_at canon s k e \<and> isWordBoundary s (e + length k))"
    unfolding ends_alternation [OF assms] by auto
  finally show ?thesis .
qed

section \<open>What matchKeys computes\<close>

lemma includes_js_sublist: "includes_js t k = sublist k t"
  by (induction t) (simp_all add: sublist_Cons_right)

lemma list_ex_upto: "list_ex P [0 ..< Suc n] \<longleftrightarrow> (\<exists>e. e \<le> n \<and> P e)"
  by (auto simp del: upt_Suc simp: list_ex_iff less_Suc_eq_le)

lemma regexp_test_word_regex:
  assumes "ks \<noteq> []"
  shows "regexp_test rt \<lparr>ignoreCase = i, parsed = word_regex ks\<rparr> s \<longleftrightarrow>
         (\<exists>k\<in>set ks. occurs_as_whole_word (regexp_canon rt i) k s)"
proof -
  let ?canon = "regexp_canon rt i"
  have "regexp_test rt \<lparr>ignoreCase = i, parsed = word_regex ks\<rparr> s \<longleftrightarrow>
        (\<exists>e. e \<le> length s \<and> ends ?canon s (word_regex ks) e \<noteq> [])"
    unfolding regexp_test_def list_ex_upto by simp
  also have "\<dots> \<longleftrightarrow> (\<exists>e. e \<le> length s \<and> isWordBoundary s e \<and>
         (\<exists>k\<in>set ks. matches_at ?canon s k e \<and> isWordBoundary s (e + length k)))"
    using ends_word_regex [OF _ assms, of _ s ?canon] by blast
  also have "\<dots> \<longleftrightarrow> (\<exists>k\<in>set ks. \<exists>e. e \<le> length s \<and> whole_word_at ?canon s k e)"
    by (auto simp: whole_word_at_def)
  also have "\<dots> \<longleftrightarrow> (\<exists>k\<in>set ks. occurs_as_whole_word ?canon k s)"
    unfolding occurs_as_whole_word_def list_ex_upto by simp
  finally show ?thesis .
qed

lemma matchKeys_whole_words:
  "matchKeys rt t keys cs True =
     Inr (\<exists>k\<in>set keys.
            occurs_as_whole_word (regexp_canon rt (\<not> cs)) (case_fold rt cs k) (case_fold rt cs t))"
proof (cases "keys = []")
  case True
  then show ?thesis by (simp add: matchKeys_def)
next
  case False
  show ?thesis
  proof (cases cs)
    case True
    have "regexp_test rt \<lparr>ignoreCase = False, parsed = word_regex keys\<rparr> t \<longleftrightarrow>
          (\<exists>k\<in>set keys. occurs_as_whole_word (regexp_canon rt False) k t)"
      using False by (rule regexp_test_word_regex)
    with False True show ?thesis
      by (simp add: matchKeys_def new_RegExp_word_pattern case_fold_def)
  next
    case cs: False
    have "map (toLowerCase rt) keys \<noteq> []"
      using False by simp
    then have "regexp_test rt \<lparr>ignoreCase = True, parsed = word_regex (map (toLowerCase rt) keys)\<rparr>
                 (toLowerCase rt t) \<longleftrightarrow>
               (\<exists>k\<in>set (map (toLowerCase rt) keys).
                  occurs_as_whole_word (regexp_canon rt True) k (toLowerCase rt t))"
      by (rule regexp_test_word_regex)
    with False cs show ?thesis
      by (simp add: matchKeys_def new_RegExp_word_pattern case_fold_def)
  qed
qed

lemma matchKeys_substring:
  "matchKeys rt t keys cs False =
     Inr (\<exists>k\<in>set keys. sublist (case_fold rt cs k) (case_fold rt cs t))"
  by (cases "keys = []")
     (auto simp: matchKeys_def case_fold_def list_ex_iff includes_js_sublist)

lemma matchKeys_total: "\<exists>b. matchKeys rt t keys cs ww = Inr b"
  by (cases ww) (simp_all add: matchKeys_whole_words matchKeys_substring)

text \<open>A copy that is equal code unit by code unit is a copy under every canonicalization.\<close>

lemma occurs_as_whole_word_exact:
  "occurs_as_whole_word (\<lambda>c. c) k s \<Longrightarrow> occurs_as_whole_word canon k s"
  by (auto simp: occurs_as_whole_word_def whole_word_at_def matches_at_def list_ex_iff)

lemma occurs_as_whole_word_slot:
  "occurs_as_whole_word canon k s \<Longrightarrow> has_word_slot s (length k)"
  by (auto simp: occurs_as_whole_word_def whole_word_at_def matches_at_def has_word_slot_def
        list_ex_iff)

lemma case_fold_ascii:
  "ecmascript_runtime rt \<Longrightarrow> \<forall>c\<in>set s. c < 128 \<Longrightarrow>
   case_fold rt cs s = (if cs then s else map ascii_toLowerCase s)"
  by (simp add: case_fold_def ecmascript_runtime_def)

lemma toLowerCase_Nil: "ecmascript_runtime rt \<Longrightarrow> toLowerCase rt s = [] \<longleftrightarrow> s = []"
proof -
  assume "ecmascript_runtime rt"
  then have low: "\<forall>s. (\<forall>c\<in>set s. c < 128) \<longrightarrow> toLowerCase rt s = map ascii_toLowerCase s"
    and ne: "\<forall>s. toLowerCase rt s = [] \<longrightarrow> s = []"
    unfolding ecmascript_runtime_def by blast+
  have "toLowerCase rt [] = []"
    using low [rule_format, of "[]"] by simp
  with ne [rule_format, of s] show ?thesis
    by blast
qed

lemma case_fold_Nil: "ecmascript_runtime rt \<Longrightarrow> case_fold rt cs k = [] \<longleftrightarrow> k = []"
  by (simp add: case_fold_def toLowerCase_Nil)

lemma ecmascript_example_runtime: "ecmascript_runtime example_runtime"
proof -
  have "map example_toLowerCase s = map ascii_toLowerCase s" if "\<forall>c\<in>set s. c < 128" for s
    using that by (induction s) (simp_all add: example_toLowerCase_def ascii_toLowerCase_def)
  then show ?thesis
    by (simp add: ecmascript_runtime_def example_runtime_def)
qed

section \<open>Whole-word and substring matching\<close>

text \<open>
  C4: in whole-word mode \<^verbatim>\<open>matchKeys\<close> compiles, for every keyword list, the pattern
  \<^verbatim>\<open>\b(k1|k2|...)\b\<close> in which every keyword stands for itself, whatever metacharacters it
  holds, and the match succeeds exactly when some keyword occurs in the text between two
  word boundaries; so \<open>cat\<close> is not found in \<open>category\<close> and is found in \<open>the cat sat\<close>. In
  substring mode the match succeeds exactly when some keyword is a substring of the text,
  so \<open>cat\<close> is found in \<open>category\<close>. Unless the match is case-sensitive, text and keywords
  are lower-cased by \<open>toLowerCase\<close> first, and the regular expression compares code units
  through \<open>Canonicalize\<close>. This holds for every \<open>toLowerCase\<close> and \<open>Canonicalize\<close>; the three
  examples need only what ECMAScript fixes for ASCII text.
\<close>

theorem matchKeys_whole_word_and_substring:
  "new_RegExp (word_pattern (map escapeRegExp ks)) i =
     Inr \<lparr>ignoreCase = i, parsed = word_regex ks\<rparr> \<and>
   matchKeys rt t keys cs True =
     Inr (\<exists>k\<in>set keys.
            occurs_as_whole_word (regexp_canon rt (\<not> cs)) (case_fold rt cs k) (case_fold rt cs t)) \<and>
   matchKeys rt t keys cs False =
     Inr (\<exists>k\<in>set keys. sublist (case_fold rt cs k) (case_fold rt cs t)) \<and>
   (ecmascript_runtime rt \<longrightarrow>
      matchKeys rt (ascii ''category'') [ascii ''cat''] cs True = Inr False \<and>
      matchKeys rt (ascii ''the cat sat'') [ascii ''cat''] cs True = Inr True \<and>
      matchKeys rt (ascii ''category'') [ascii ''cat''] cs False = Inr True)"
proof -
  have examples:
    "matchKeys rt (ascii ''category'') [ascii ''cat''] cs True = Inr False \<and>
     matchKeys rt (ascii ''the cat sat'') [ascii ''cat''] cs True = Inr True \<and>
     matchKeys rt (ascii ''category'') [ascii ''cat''] cs False = Inr True"
    if rt: "ecmascript_runtime rt"
  proof -
    have "\<forall>c\<in>set (ascii ''cat''). c < 128" "\<forall>c\<in>set (ascii ''category''). c < 128"
         "\<forall>c\<in>set (ascii ''the cat sat''). c < 128"
      by code_simp+
    moreover have "map ascii_toLowerCase (ascii ''cat'') = ascii ''cat''"
      "map ascii_toLowerCase (ascii ''category'') = ascii ''category''"
      "map ascii_toLowerCase (ascii ''the cat sat'') = ascii ''the cat sat''"
      by code_simp+
    ultimately have fold: "case_fold rt cs (ascii ''cat'') = ascii ''cat''"
      "case_fold rt cs (ascii ''category'') = ascii ''category''"
      "case_fold rt cs (ascii ''the cat sat'') = ascii ''the cat sat''"
      using rt by (simp_all add: case_fold_ascii)
    have "\<not> has_word_slot (ascii ''category'') (length (ascii ''cat''))"
      by code_simp
    then have no: "\<not> occurs_as_whole_word canon (ascii ''cat'') (ascii ''category'')" for canon
      using occurs_as_whole_word_slot by blast
    have "occurs_as_whole_word (\<lambda>c. c) (ascii ''cat'') (ascii ''the cat sat'')"
      by code_simp
    then have yes: "occurs_as_whole_word canon (ascii ''cat'') (ascii ''the cat sat'')" for canon
      by (rule occurs_as_whole_word_exact)
    have sub: "sublist (ascii ''cat'') (ascii ''category'')"
      by code_simp
    show ?thesis
      by (simp add: matchKeys_whole_words matchKeys_substring fold no yes sub)
  qed
  show ?thesis
    apply (intro conjI impI)
         apply (rule new_RegExp_word_pattern)
        apply (rule matchKeys_whole_words)
       apply (rule matchKeys_substring)
      apply (drule examples, blast)+
    done
qed

text \<open>
  Keywords with metacharacters, and text outside ASCII: \<open>ECOLE\<close> and \<open>ecole\<close> with an acute
  \<open>E\<close>, \<open>She is NAIVE.\<close> and \<open>naive\<close> with a diaeresis on the \<open>I\<close>, and the micro sign in the
  text against the Greek mu as keyword, which only \<open>Canonicalize\<close> brings together.
\<close>

theorem matchKeys_whole_word_and_substring_witness:
  "ecmascript_runtime example_runtime \<and>
   matchKeys example_runtime (ascii ''category'') [ascii ''cat''] False True = Inr False \<and>
   matchKeys example_runtime (ascii ''the cat sat'') [ascii ''cat''] True True = Inr True \<and>
   matchKeys example_runtime (ascii ''category'') [ascii ''cat''] False False = Inr True \<and>
   matchKeys example_runtime (ascii ''abc or C++x'') [ascii ''a.c'', ascii ''C++''] False True
     = Inr True \<and>
   matchKeys example_runtime (ascii ''abc or C++x'') [ascii ''a.c'', ascii ''c++''] True False
     = Inr False \<and>
   matchKeys example_runtime (0xC9 # ascii ''COLE'') [0xE9 # ascii ''cole''] False False
     = Inr True \<and>
   matchKeys example_runtime (ascii ''She is NA'' @ 0xCF # ascii ''VE.'')
     [ascii ''na'' @ 0xEF # ascii ''ve''] False True = Inr True \<and>
   matchKeys example_runtime [53, 0xB5, 109] [[0x3BC]] False True = Inr True \<and>
   matchKeys example_runtime [53, 0xB5, 109] [[0x3BC]] True True = Inr False"
proof -
  note rt = ecmascript_example_runtime
  have a: "(\<exists>k\<in>set [ascii ''a.c'', ascii ''C++''].
              occurs_as_whole_word (regexp_canon example_runtime (\<not> False))
                (case_fold example_runtime False k)
                (case_fold example_runtime False (ascii ''abc or C++x''))) = True"
    by code_simp
  have b: "(\<exists>k\<in>set [ascii ''a.c'', ascii ''c++''].
              sublist (case_fold example_runtime True k)
                (case_fold example_runtime True (ascii ''abc or C++x''))) = False"
    by code_simp
  have c: "(\<exists>k\<in>set [0xE9 # ascii ''cole''].
              sublist (case_fold example_runtime False k)
                (case_fold example_runtime False (0xC9 # ascii ''COLE''))) = True"
    by code_simp
  have d: "(\<exists>k\<in>set [ascii ''na'' @ 0xEF # ascii ''ve''].
              occurs_as_whole_word (regexp_canon example_runtime (\<not> False))
                (case_fold example_runtime False k)
                (case_fold example_runtime False (ascii ''She is NA'' @ 0xCF # ascii ''VE.''))) = True"
    by code_simp
  have e: "(\<exists>k\<in>set [[0x3BC]].
              occurs_as_whole_word (regexp_canon example_runtime (\<not> False))
                (case_fold example_runtime False k)
                (case_fold example_runtime False [53, 0xB5, 109])) = True"
    by code_simp
  have f: "(\<exists>k\<in>set [[0x3BC]].
              occurs_as_whole_word (regexp_canon example_runtime (\<not> True))
                (case_fold example_runtime True k)
                (case_fold example_runtime True [53, 0xB5, 109])) = False"
    by code_simp
  show ?thesis
    using rt
      matchKeys_whole_word_and_substring
        [of "[]" True example_runtime "ascii ''abc or C++x''" "[ascii ''a.c'', ascii ''C++'']" False]
      matchKeys_whole_word_and_substring
        [of "[]" True example_runtime "ascii ''abc or C++x''" "[ascii ''a.c'', ascii ''c++'']" True]
      matchKeys_whole_word_and_substring
        [of "[]" True example_runtime "0xC9 # ascii ''COLE''" "[0xE9 # ascii ''cole'']" False]
      matchKeys_whole_word_and_substring
        [of "[]" True example_runtime "ascii ''She is NA'' @ 0xCF # ascii ''VE.''"
            "[ascii ''na'' @ 0xEF # ascii ''ve'']" False]
      matchKeys_whole_word_and_substring
        [of "[]" True example_runtime "[53, 0xB5, 109]" "[[0x3BC]]" False]
      matchKeys_whole_word_and_substring
        [of "[]" True example_runtime "[53, 0xB5, 109]" "[[0x3BC]]" True]
    unfolding a b c d e f by blast
qed

section \<open>The steps of shouldActivateItem\<close>

lemma times_100_three_quarters: "times_100 \<lparr>mantissa = 3, binary_places = 2\<rparr> = 75"
  unfolding times_100_def Let_def by (simp add: excess_bits.simps round_nearest_even_def)

text \<open>
  The product of the double 0.27 and 100 lies halfway between 27 and the next double, and
  is rounded to 27.
\<close>

lemma times_100_double_0_27: "times_100 double_0_27 = 27"
  unfolding times_100_def double_0_27_def Let_def
  by (simp add: excess_bits.simps round_nearest_even_def)

lemma double_0_27_value:
  "is_random_number double_0_27 \<and> 27 < 100 * number_value double_0_27"
  by (simp add: is_random_number_def number_value_def double_0_27_def)

lemma probability_check_blocked:
  "probability item = Some p \<Longrightarrow> gate_blocks item w \<Longrightarrow>
   probability_check item w =
     (True, logger_debug (ProbabilityCheckFailed (name item) (next_roll w) p) (drawn w))"
  by (simp add: probability_check_def gate_blocks_def Math_random_def next_roll_def drawn_def)

lemma probability_check_passed:
  "\<not> gate_blocks item w \<Longrightarrow> probability_check item w = (False, after_gate item w)"
  by (auto simp: probability_check_def gate_blocks_def Math_random_def next_roll_def drawn_def
        after_gate_def draws_def split: option.splits)

lemma gate_blocks_probability: "gate_blocks item w \<Longrightarrow> \<exists>p. probability item = Some p"
  by (cases "probability item") (simp_all add: gate_blocks_def)

lemma chat_logger_debug [simp]: "chat (logger_debug m w) = chat w"
  by (simp add: logger_debug_def Let_def)

lemma chat_logger_warn [simp]: "chat (logger_warn m w) = chat w"
  by (simp add: logger_warn_def Let_def)

lemma chat_drawn [simp]: "chat (drawn w) = chat w"
  by (simp add: drawn_def)

lemma chat_after_gate [simp]: "chat (after_gate item w) = chat w"
  by (simp add: after_gate_def)

lemma searchText_chat: "chat w' = chat w \<Longrightarrow> searchText item w' = searchText item w"
  by (simp add: searchText_def)

lemma searchText_after_gate: "searchText item (after_gate item w) = searchText item w"
  by (rule searchText_chat) simp

lemma keyword_step_no_keys:
  "no_keys (key item) \<Longrightarrow> no_keys (keysecondary item) \<Longrightarrow>
   keyword_step rt item w = Inr (False, logger_warn (NoKeywords (name item)) w)"
  by (simp add: keyword_step_def)

lemma keyword_step_keys:
  assumes "\<not> (no_keys (key item) \<and> no_keys (keysecondary item))"
  shows "keyword_step rt item w = Inr (keyword_match rt item (searchText item w), w)"
proof -
  obtain b1 where b1: "matchKeys rt (searchText item w) (or_empty (key item))
                         (case_sensitive item) (match_whole_words item) = Inr b1"
    using matchKeys_total by blast
  obtain b2 where b2: "matchKeys rt (searchText item w) (or_empty (keysecondary item))
                         (case_sensitive item) (match_whole_words item) = Inr b2"
    using matchKeys_total by blast
  show ?thesis
    using assms b1 b2
    by (cases "keysecondary item")
       (auto simp: keyword_step_def keyword_match_def no_keys_def or_empty_def
             split: option.splits)
qed

lemma shouldActivateItem_blocked:
  "\<not> constant item \<Longrightarrow> \<not> disable item \<Longrightarrow> probability item = Some p \<Longrightarrow> gate_blocks item w \<Longrightarrow>
   shouldActivateItem rt item w =
     Inr (False, logger_debug (ProbabilityCheckFailed (name item) (next_roll w) p) (drawn w))"
  by (simp add: shouldActivateItem_def probability_check_blocked)

lemma shouldActivateItem_passed:
  "\<not> constant item \<Longrightarrow> \<not> disable item \<Longrightarrow> \<not> gate_blocks item w \<Longrightarrow>
   shouldActivateItem rt item w = keyword_step rt item (after_gate item w)"
  by (simp add: shouldActivateItem_def probability_check_passed)

text \<open>The state that an evaluation leaves.\<close>

lemma shouldActivateItem_total: "\<exists>b w'. shouldActivateItem rt item w = Inr (b, w')"
proof (cases "constant item \<or> disable item")
  case True
  then show ?thesis by (auto simp: shouldActivateItem_def)
next
  case False
  show ?thesis
  proof (cases "gate_blocks item w")
    case True
    then obtain p where "probability item = Some p"
      using gate_blocks_probability by blast
    with False True show ?thesis
      by (auto simp: shouldActivateItem_blocked)
  next
    case g: False
    show ?thesis
    proof (cases "no_keys (key item) \<and> no_keys (keysecondary item)")
      case True
      with False g show ?thesis
        by (auto simp: shouldActivateItem_passed keyword_step_no_keys)
    next
      case k: False
      with False g show ?thesis
        by (auto simp: shouldActivateItem_passed keyword_step_keys)
    qed
  qed
qed

lemma activates_eq:
  "activates rt item w \<longleftrightarrow>
     constant item \<or>
     \<not> disable item \<and> \<not> gate_blocks item w \<and>
     \<not> (no_keys (key item) \<and> no_keys (keysecondary item)) \<and>
     keyword_match rt item (searchText item w)"
proof (cases "constant item \<or> disable item")
  case True
  then show ?thesis by (auto simp: activates_def shouldActivateItem_def)
next
  case False
  show ?thesis
  proof (cases "gate_blocks item w")
    case True
    then obtain p where "probability item = Some p"
      using gate_blocks_probability by blast
    with False True show ?thesis
      by (simp add: activates_def shouldActivateItem_blocked)
  next
    case g: False
    show ?thesis
    proof (cases "no_keys (key item) \<and> no_keys (keysecondary item)")
      case True
      with False g show ?thesis
        by (simp add: activates_def shouldActivateItem_passed keyword_step_no_keys)
    next
      case k: False
      with False g show ?thesis
        by (simp add: activates_def shouldActivateItem_passed keyword_step_keys searchText_after_gate)
    qed
  qed
qed

section \<open>What the logger receives and prints\<close>

lemma logger_debug_eq: "logger_debug m w = w\<lparr>logger_calls := logger_calls w @ [(DEBUG, m)]\<rparr>"
  by (simp add: logger_debug_def ENABLE_LOGGING_def)

lemma logger_info_eq: "logger_info m w = w\<lparr>logger_calls := logger_calls w @ [(INFO, m)]\<rparr>"
  by (simp add: logger_info_def ENABLE_LOGGING_def)

lemma logger_warn_eq: "logger_warn m w = w\<lparr>logger_calls := logger_calls w @ [(WARN, m)]\<rparr>"
  by (simp add: logger_warn_def ENABLE_LOGGING_def)

lemma warnings_logger_warn: "warnings (logger_warn m w) = warnings w @ [m]"
  by (simp add: logger_warn_eq warnings_def)

lemma warnings_logger_debug: "warnings (logger_debug m w) = warnings w"
  by (simp add: logger_debug_eq warnings_def)

lemma warnings_after_gate: "warnings (after_gate item w) = warnings w"
  by (simp add: after_gate_def drawn_def warnings_def)

lemma warnings_drawn: "warnings (drawn w) = warnings w"
  by (simp add: drawn_def warnings_def)

section \<open>Entries without keywords\<close>

text \<open>
  C1, as the code has it: an entry with no primary and no secondary keys, \<open>constant\<close> unset
  and \<open>disable\<close> unset is never activated, whatever the chat and the drawn value are.
  \<^verbatim>\<open>logger.warn\<close> is called exactly once in an evaluation that passes the probability check
  (the probability is absent or at least 100, or the double \<^verbatim>\<open>Math.random() * 100\<close> does not
  exceed it) and is not called in an evaluation that the probability check ends.
\<close>

theorem no_keywords_never_activates:
  assumes "no_keys (key item)" "no_keys (keysecondary item)" "\<not> constant item" "\<not> disable item"
  shows "\<exists>w'. shouldActivateItem rt item w = Inr (False, w') \<and>
              warnings w' = warnings w @ (if gate_blocks item w then [] else [NoKeywords (name item)])"
proof (cases "gate_blocks item w")
  case True
  then obtain p where "probability item = Some p"
    using gate_blocks_probability by blast
  with assms True show ?thesis
    by (simp add: shouldActivateItem_blocked warnings_logger_debug warnings_drawn)
next
  case False
  with assms show ?thesis
    by (simp add: shouldActivateItem_passed keyword_step_no_keys warnings_logger_warn
          warnings_after_gate)
qed

text \<open>
  With probability 80 and \<^verbatim>\<open>Math.random()\<close> giving 0.75 the roll is 75 and the warning is
  issued. With probability 27 and \<^verbatim>\<open>Math.random()\<close> giving the double 0.27, whose value is
  above 27 hundredths, the roll is the double 27, which does not exceed the probability:
  the check is passed and the warning is issued.
\<close>

theorem no_keywords_never_activates_witness:
  "no_keys (key (example_item\<lparr>key := Some [], probability := Some 80\<rparr>)) \<and>
   no_keys (keysecondary (example_item\<lparr>key := Some [], probability := Some 80\<rparr>)) \<and>
   \<not> constant (example_item\<lparr>key := Some [], probability := Some 80\<rparr>) \<and>
   \<not> disable (example_item\<lparr>key := Some [], probability := Some 80\<rparr>) \<and>
   \<not> gate_blocks (example_item\<lparr>key := Some [], probability := Some 80\<rparr>) example_world \<and>
   (\<exists>w'. shouldActivateItem example_runtime
            (example_item\<lparr>key := Some [], probability := Some 80\<rparr>) example_world
            = Inr (False, w') \<and>
         warnings w' = [NoKeywords (ascii ''Dragon'')]) \<and>
   27 < 100 * number_value double_0_27 \<and>
   next_roll (example_world\<lparr>random_values := \<lambda>n. double_0_27\<rparr>) = 27 \<and>
   \<not> gate_blocks (example_item\<lparr>key := Some [], probability := Some 27\<rparr>)
       (example_world\<lparr>random_values := \<lambda>n. double_0_27\<rparr>) \<and>
   (\<exists>w'. shouldActivateItem example_runtime
            (example_item\<lparr>key := Some [], probability := Some 27\<rparr>)
            (example_world\<lparr>random_values := \<lambda>n. double_0_27\<rparr>)
            = Inr (False, w') \<and>
         warnings w' = [NoKeywords (ascii ''Dragon'')])"
  using no_keywords_never_activates
          [of "example_item\<lparr>key := Some [], probability := Some 80\<rparr>" example_runtime example_world]
        no_keywords_never_activates
          [of "example_item\<lparr>key := Some [], probability := Some 27\<rparr>" example_runtime
              "example_world\<lparr>random_values := \<lambda>n. double_0_27\<rparr>"]
        double_0_27_value
  by (simp add: example_item_def example_world_def no_keys_def gate_blocks_def next_roll_def
        warnings_def times_100_three_quarters times_100_double_0_27)

text \<open>
  One warning in every evaluation does not hold where the probability check ends the
  evaluation: with probability 50 and a drawn value of 0.75 the roll is 75, the entry is
  not activated and \<^verbatim>\<open>logger.warn\<close> is not called.
\<close>

theorem no_keywords_warning_counterexample:
  "no_keys (key (example_item\<lparr>key := Some [], probability := Some 50\<rparr>)) \<and>
   no_keys (keysecondary (example_item\<lparr>key := Some [], probability := Some 50\<rparr>)) \<and>
   \<not> constant (example_item\<lparr>key := Some [], probability := Some 50\<rparr>) \<and>
   \<not> disable (example_item\<lparr>key := Some [], probability := Some 50\<rparr>) \<and>
   shouldActivateItem example_runtime
       (example_item\<lparr>key := Some [], probability := Some 50\<rparr>) example_world =
     Inr (False, example_world\<lparr>random_calls := 1,
                    logger_calls := [(DEBUG, ProbabilityCheckFailed (ascii ''Dragon'') 75 50)]\<rparr>) \<and>
   warnings (example_world\<lparr>random_calls := 1,
               logger_calls := [(DEBUG, ProbabilityCheckFailed (ascii ''Dragon'') 75 50)]\<rparr>) = []"
  by (simp add: shouldActivateItem_def probability_check_def Math_random_def logger_debug_eq
        example_item_def example_world_def warnings_def no_keys_def times_100_three_quarters)

section \<open>The probability check\<close>

text \<open>
  C2: for an entry with \<open>constant\<close> and \<open>disable\<close> unset and a probability \<open>p\<close>. If \<open>p\<close> is
  below 100, one value is drawn: the double \<^verbatim>\<open>Math.random() * 100\<close> of the next value of
  \<^verbatim>\<open>Math.random()\<close>. If the drawn value exceeds \<open>p\<close> the result is false, the keywords and
  the chat are not looked at and the failure is reported to the logger; otherwise the
  result is that of the keyword steps. If \<open>p\<close> is 100 or more no value is drawn and the
  result is that of the keyword steps. For every double in [0,1) that \<^verbatim>\<open>Math.random()\<close>
  gives, the drawn value is a double in [0,100) and differs from 100 times that value by at
  most \<open>1 / 2 ^ 47\<close>, the rounding of the product; so the drawn value is spread over [0,100)
  as \<^verbatim>\<open>Math.random()\<close> is spread over [0,1).
\<close>

theorem probability_gate:
  assumes "\<not> constant item" "\<not> disable item" "probability item = Some p"
  shows "(p < 100 \<and> real_of_int p < next_roll w \<longrightarrow>
            shouldActivateItem rt item w =
              Inr (False, logger_debug (ProbabilityCheckFailed (name item) (next_roll w) p) (drawn w))) \<and>
         (p < 100 \<and> next_roll w \<le> real_of_int p \<longrightarrow>
            shouldActivateItem rt item w = keyword_step rt item (drawn w)) \<and>
         (100 \<le> p \<longrightarrow> shouldActivateItem rt item w = keyword_step rt item w) \<and>
         next_roll w = times_100 (random_values w (random_calls w)) \<and>
         (is_random_number (random_values w (random_calls w)) \<longrightarrow>
            0 \<le> next_roll w \<and> next_roll w < 100 \<and>
            \<bar>next_roll w - 100 * number_value (random_values w (random_calls w))\<bar> \<le> 1 / 2 ^ 47)"
proof -
  have steps:
    "(p < 100 \<and> real_of_int p < next_roll w \<longrightarrow>
        shouldActivateItem rt item w =
          Inr (False, logger_debug (ProbabilityCheckFailed (name item) (next_roll w) p) (drawn w))) \<and>
     (p < 100 \<and> next_roll w \<le> real_of_int p \<longrightarrow>
        shouldActivateItem rt item w = keyword_step rt item (drawn w)) \<and>
     (100 \<le> p \<longrightarrow> shouldActivateItem rt item w = keyword_step rt item w)"
    using assms
    by (auto simp: shouldActivateItem_def probability_check_def Math_random_def next_roll_def
          drawn_def)
  have range: "is_random_number (random_values w (random_calls w)) \<longrightarrow>
            0 \<le> next_roll w \<and> next_roll w < 100 \<and>
            \<bar>next_roll w - 100 * number_value (random_values w (random_calls w))\<bar> \<le> 1 / 2 ^ 47"
    unfolding next_roll_def using times_100_range by blast
  show ?thesis
    using steps range by (simp add: next_roll_def)
qed

text \<open>
  \<^verbatim>\<open>Math.random()\<close> gives 0.75: probability 50 is exceeded by the roll 75, probability 80 is
  not. \<^verbatim>\<open>Math.random()\<close> gives the double 0.27: the roll is the double 27, and an entry of
  probability 27 passes the check.
\<close>

theorem probability_gate_witness:
  "shouldActivateItem example_runtime (example_item\<lparr>probability := Some 50\<rparr>) example_world =
     Inr (False, logger_debug (ProbabilityCheckFailed (ascii ''Dragon'') 75 50)
                   (drawn example_world)) \<and>
   shouldActivateItem example_runtime (example_item\<lparr>probability := Some 80\<rparr>) example_world =
     keyword_step example_runtime (example_item\<lparr>probability := Some 80\<rparr>) (drawn example_world) \<and>
   shouldActivateItem example_runtime example_item example_world =
     keyword_step example_runtime example_item example_world \<and>
   next_roll example_world = 75 \<and>
   is_random_number double_0_27 \<and>
   next_roll (example_world\<lparr>random_values := \<lambda>n. double_0_27\<rparr>) = 27 \<and>
   shouldActivateItem example_runtime (example_item\<lparr>probability := Some 27\<rparr>)
       (example_world\<lparr>random_values := \<lambda>n. double_0_27\<rparr>) =
     keyword_step example_runtime (example_item\<lparr>probability := Some 27\<rparr>)
       (drawn (example_world\<lparr>random_values := \<lambda>n. double_0_27\<rparr>))"
  using probability_gate
          [of "example_item\<lparr>probability := Some 50\<rparr>" 50 example_world example_runtime]
        probability_gate
          [of "example_item\<lparr>probability := Some 80\<rparr>" 80 example_world example_runtime]
        probability_gate [of example_item 100 example_world example_runtime]
        probability_gate
          [of "example_item\<lparr>probability := Some 27\<rparr>" 27
              "example_world\<lparr>random_values := \<lambda>n. double_0_27\<rparr>" example_runtime]
        double_0_27_value
  by (simp add: example_item_def example_world_def next_roll_def times_100_three_quarters
        times_100_double_0_27)

section \<open>The window of messages\<close>



lemma searchText_slice:
  "searchText item w =
     join (ascii '' '') (map mes_text (slice (chat_messages w) (- scanDepth item)))"
  by (simp add: searchText_def chat_messages_def)





section \<open>Primary and secondary keys\<close>

text \<open>
  C5: an entry reaches the keyword match when \<open>constant\<close> and \<open>disable\<close> are unset, the
  probability check does not end the evaluation and it has a primary or a secondary key.
  Its activation is then the match of the primary keys or the match of the secondary
  keys when there are secondary keys, and the match of the primary keys alone when there
  are none; an entry with primary key \<open>alpha\<close> and secondary key \<open>beta\<close> is activated by
  the text \<open>beta here\<close>, in every matching mode and with the \<open>toLowerCase\<close> of every
  JavaScript engine.
\<close>

theorem primary_or_secondary:
  assumes "\<not> constant item" "\<not> disable item" "\<not> gate_blocks item w"
    and "\<not> (no_keys (key item) \<and> no_keys (keysecondary item))"
  shows "shouldActivateItem rt item w =
           Inr (matchKeys rt (searchText item w) (or_empty (key item))
                  (case_sensitive item) (match_whole_words item) = Inr True \<or>
                \<not> no_keys (keysecondary item) \<and>
                matchKeys rt (searchText item w) (or_empty (keysecondary item))
                  (case_sensitive item) (match_whole_words item) = Inr True,
                after_gate item w) \<and>
         (no_keys (keysecondary item) \<longrightarrow>
            shouldActivateItem rt item w =
              Inr (matchKeys rt (searchText item w) (or_empty (key item))
                     (case_sensitive item) (match_whole_words item) = Inr True,
                   after_gate item w)) \<and>
         (ecmascript_runtime rt \<and>
          key item = Some [ascii ''alpha''] \<and> keysecondary item = Some [ascii ''beta''] \<and>
          searchText item w = ascii ''beta here'' \<longrightarrow>
            shouldActivateItem rt item w = Inr (True, after_gate item w))"
proof -
  have eq: "shouldActivateItem rt item w =
              Inr (keyword_match rt item (searchText item w), after_gate item w)"
    using assms
    by (simp add: shouldActivateItem_passed keyword_step_keys searchText_after_gate)
  have beta: "matchKeys rt (ascii ''beta here'') [ascii ''beta''] cs ww = Inr True"
    if rt: "ecmascript_runtime rt" for cs ww
  proof -
    have "\<forall>c\<in>set (ascii ''beta''). c < 128" "\<forall>c\<in>set (ascii ''beta here''). c < 128"
      by code_simp+
    moreover have "map ascii_toLowerCase (ascii ''beta'') = ascii ''beta''"
      "map ascii_toLowerCase (ascii ''beta here'') = ascii ''beta here''"
      by code_simp+
    ultimately have fold: "case_fold rt cs (ascii ''beta'') = ascii ''beta''"
      "case_fold rt cs (ascii ''beta here'') = ascii ''beta here''"
      using rt by (simp_all add: case_fold_ascii)
    have "occurs_as_whole_word (\<lambda>c. c) (ascii ''beta'') (ascii ''beta here'')"
      by code_simp
    then have yes: "occurs_as_whole_word canon (ascii ''beta'') (ascii ''beta here'')" for canon
      by (rule occurs_as_whole_word_exact)
    have sub: "sublist (ascii ''beta'') (ascii ''beta here'')"
      by code_simp
    show ?thesis
      by (cases ww) (simp_all add: matchKeys_whole_words matchKeys_substring fold yes sub)
  qed
  show ?thesis
    unfolding eq using beta
    by (auto simp: keyword_match_def or_empty_def no_keys_def)
qed

theorem primary_or_secondary_witness:
  "shouldActivateItem example_runtime
     (example_item\<lparr>key := Some [ascii ''alpha''], keysecondary := Some [ascii ''beta'']\<rparr>)
     (example_world\<lparr>chat := Some [\<lparr>mes = Some (ascii ''beta here'')\<rparr>]\<rparr>) =
   Inr (True, example_world\<lparr>chat := Some [\<lparr>mes = Some (ascii ''beta here'')\<rparr>]\<rparr>) \<and>
   shouldActivateItem example_runtime
     (example_item\<lparr>key := Some [ascii ''alpha''], keysecondary := Some []\<rparr>)
     (example_world\<lparr>chat := Some [\<lparr>mes = Some (ascii ''beta here'')\<rparr>]\<rparr>) =
   Inr (False, example_world\<lparr>chat := Some [\<lparr>mes = Some (ascii ''beta here'')\<rparr>]\<rparr>)"
proof -
  let ?w = "example_world\<lparr>chat := Some [\<lparr>mes = Some (ascii ''beta here'')\<rparr>]\<rparr>"
  let ?i = "example_item\<lparr>key := Some [ascii ''alpha''], keysecondary := Some [ascii ''beta'']\<rparr>"
  let ?j = "example_item\<lparr>key := Some [ascii ''alpha''], keysecondary := Some []\<rparr>"
  have i: "\<not> constant ?i" "\<not> disable ?i" "\<not> gate_blocks ?i ?w"
          "\<not> (no_keys (key ?i) \<and> no_keys (keysecondary ?i))"
    by (simp_all add: example_item_def gate_blocks_def no_keys_def)
  have j: "\<not> constant ?j" "\<not> disable ?j" "\<not> gate_blocks ?j ?w"
          "\<not> (no_keys (key ?j) \<and> no_keys (keysecondary ?j))"
    by (simp_all add: example_item_def gate_blocks_def no_keys_def)
  have st: "searchText ?i ?w = ascii ''beta here''" "searchText ?j ?w = ascii ''beta here''"
    by (simp_all add: example_item_def searchText_def scanDepth_def slice_def mes_text_def)
  have ag: "after_gate ?i ?w = ?w" "after_gate ?j ?w = ?w"
    by (simp_all add: after_gate_def draws_def example_item_def)
  have flags: "case_sensitive ?j = False" "match_whole_words ?j = False"
    by (simp_all add: example_item_def)
  have alpha: "matchKeys example_runtime (ascii ''beta here'') [ascii ''alpha''] False False
                 = Inr False"
    by code_simp
  have "ecmascript_runtime example_runtime \<and>
        key ?i = Some [ascii ''alpha''] \<and> keysecondary ?i = Some [ascii ''beta''] \<and>
        searchText ?i ?w = ascii ''beta here'' \<longrightarrow>
        shouldActivateItem example_runtime ?i ?w = Inr (True, after_gate ?i ?w)"
    using primary_or_secondary [OF i] by blast
  then have "shouldActivateItem example_runtime ?i ?w = Inr (True, ?w)"
    by (simp add: st ag ecmascript_example_runtime)
  moreover have "no_keys (keysecondary ?j) \<longrightarrow>
        shouldActivateItem example_runtime ?j ?w =
          Inr (matchKeys example_runtime (searchText ?j ?w) (or_empty (key ?j))
                 (case_sensitive ?j) (match_whole_words ?j) = Inr True, after_gate ?j ?w)"
    using primary_or_secondary [OF j] by blast
  then have "shouldActivateItem example_runtime ?j ?w = Inr (False, ?w)"
    by (simp add: st ag flags alpha no_keys_def or_empty_def)
  ultimately show ?thesis by simp
qed

section \<open>The empty corpus\<close>

lemma occurs_as_whole_word_Nil: "\<not> occurs_as_whole_word canon k []"
  by (simp add: occurs_as_whole_word_def whole_word_at_def isWordBoundary_def isWordChar_def)

lemma matchKeys_whole_words_Nil:
  "ecmascript_runtime rt \<Longrightarrow> matchKeys rt [] keys cs True = Inr False"
proof -
  assume "ecmascript_runtime rt"
  then have "case_fold rt cs [] = []"
    by (simp add: case_fold_Nil)
  then show ?thesis
    by (simp add: matchKeys_whole_words occurs_as_whole_word_Nil)
qed

lemma matchKeys_substring_Nil:
  "ecmascript_runtime rt \<Longrightarrow> [] \<notin> set keys \<Longrightarrow> matchKeys rt [] keys cs False = Inr False"
proof -
  assume rt: "ecmascript_runtime rt" and keys: "[] \<notin> set keys"
  have "case_fold rt cs [] = []"
    using rt by (simp add: case_fold_Nil)
  moreover have "\<And>k. k \<in> set keys \<Longrightarrow> case_fold rt cs k \<noteq> []"
    using rt keys by (auto simp: case_fold_Nil)
  ultimately show ?thesis
    by (simp add: matchKeys_substring)
qed

text \<open>
  C7, as the code has it: on an empty corpus the whole-word check of \<^verbatim>\<open>matchKeys\<close> fails
  for every keyword list and case flag, and the substring check fails for every keyword
  list that does not hold the empty string; so an entry with \<open>constant\<close> and \<open>disable\<close> unset
  that matches whole words, or has no empty string among its keywords, is not activated
  on an empty corpus. This holds with the \<open>toLowerCase\<close> of every JavaScript engine, which
  gives the empty string for the empty string only.
\<close>

theorem empty_corpus_no_match:
  assumes "ecmascript_runtime rt"
  shows "matchKeys rt [] keys cs True = Inr False \<and>
   ([] \<notin> set keys \<longrightarrow> matchKeys rt [] keys cs False = Inr False) \<and>
   (\<not> constant item \<and> \<not> disable item \<and> searchText item w = [] \<and>
    (match_whole_words item \<or>
     [] \<notin> set (or_empty (key item)) \<and> [] \<notin> set (or_empty (keysecondary item))) \<longrightarrow>
      \<not> activates rt item w)"
proof -
  have "\<not> keyword_match rt item []"
    if "match_whole_words item \<or>
        [] \<notin> set (or_empty (key item)) \<and> [] \<notin> set (or_empty (keysecondary item))"
    using that assms
    by (cases "match_whole_words item")
       (auto simp: keyword_match_def matchKeys_whole_words_Nil matchKeys_substring_Nil)
  then show ?thesis
    using assms
    by (auto simp: matchKeys_whole_words_Nil matchKeys_substring_Nil activates_eq)
qed

theorem empty_corpus_no_match_witness:
  "ecmascript_runtime example_runtime \<and>
   [] \<notin> set [ascii ''dragon''] \<and>
   matchKeys example_runtime [] [ascii ''dragon''] False False = Inr False \<and>
   \<not> constant example_item \<and> \<not> disable example_item \<and>
   searchText example_item (example_world\<lparr>chat := None\<rparr>) = [] \<and>
   [] \<notin> set (or_empty (key example_item)) \<and> [] \<notin> set (or_empty (keysecondary example_item)) \<and>
   \<not> activates example_runtime example_item (example_world\<lparr>chat := None\<rparr>)"
proof -
  note rt = ecmascript_example_runtime
  have h: "\<not> constant example_item" "\<not> disable example_item"
          "searchText example_item (example_world\<lparr>chat := None\<rparr>) = []"
          "[] \<notin> set (or_empty (key example_item))"
          "[] \<notin> set (or_empty (keysecondary example_item))"
    by (simp_all add: example_item_def searchText_def scanDepth_def slice_def or_empty_def
          ascii_def)
  have d: "[] \<notin> set [ascii ''dragon'']"
    by (simp add: ascii_def)
  have "\<not> activates example_runtime example_item (example_world\<lparr>chat := None\<rparr>)"
    using empty_corpus_no_match
            [OF rt, of "[ascii ''dragon'']" False example_item "example_world\<lparr>chat := None\<rparr>"] h
    by blast
  moreover have "matchKeys example_runtime [] [ascii ''dragon''] False False = Inr False"
    using empty_corpus_no_match
            [OF rt, of "[ascii ''dragon'']" False example_item "example_world\<lparr>chat := None\<rparr>"] d
    by blast
  ultimately show ?thesis
    using h d rt by simp
qed

text \<open>
  A keyword list that holds the empty string does match the empty corpus: every string
  includes the empty string, so the substring check succeeds and the entry is activated
  although there is no chat.
\<close>

theorem empty_corpus_counterexample:
  "matchKeys example_runtime [] [[]] True False = Inr True \<and>
   matchKeys example_runtime [] [[]] False False = Inr True \<and>
   \<not> constant (example_item\<lparr>key := Some [[]]\<rparr>) \<and> \<not> disable (example_item\<lparr>key := Some [[]]\<rparr>) \<and>
   searchText (example_item\<lparr>key := Some [[]]\<rparr>) (example_world\<lparr>chat := Some []\<rparr>) = [] \<and>
   shouldActivateItem example_runtime (example_item\<lparr>key := Some [[]]\<rparr>)
       (example_world\<lparr>chat := Some []\<rparr>) =
     Inr (True, example_world\<lparr>chat := Some []\<rparr>)"
proof -
  have m: "matchKeys example_runtime [] [[]] True False = Inr True"
          "matchKeys example_runtime [] [[]] False False = Inr True"
    by code_simp+
  have st: "searchText (example_item\<lparr>key := Some [[]]\<rparr>) (example_world\<lparr>chat := Some []\<rparr>) = []"
    by (simp add: searchText_def slice_def)
  show ?thesis
    using m st
    by (simp add: shouldActivateItem_def probability_check_def keyword_step_def no_keys_def
          example_item_def)
qed

section \<open>What an evaluation reads and writes\<close>

lemma shouldActivateItem_frame:
  "\<exists>b w'. shouldActivateItem rt item w = Inr (b, w') \<and>
          selectedItems w' = selectedItems w \<and> chat w' = chat w \<and>
          extension_prompts w' = extension_prompts w \<and> console w' = console w"
proof (cases "constant item \<or> disable item")
  case True
  then show ?thesis by (auto simp: shouldActivateItem_def)
next
  case False
  show ?thesis
  proof (cases "gate_blocks item w")
    case True
    then obtain p where "probability item = Some p"
      using gate_blocks_probability by blast
    with False True show ?thesis
      by (auto simp: shouldActivateItem_blocked logger_debug_eq drawn_def)
  next
    case g: False
    show ?thesis
    proof (cases "no_keys (key item) \<and> no_keys (keysecondary item)")
      case True
      with False g show ?thesis
        by (auto simp: shouldActivateItem_passed keyword_step_no_keys logger_warn_eq
              after_gate_def drawn_def)
    next
      case k: False
      with False g show ?thesis
        by (auto simp: shouldActivateItem_passed keyword_step_keys after_gate_def drawn_def)
    qed
  qed
qed

text \<open>
  C8: an evaluation returns the list of entries, the chat and the prompts as it found
  them (it writes only the count of drawn values and the trace of the logger), and whether
  it activates the entry is decided by the entry, the window of recent messages and the
  drawn value alone: two states with the same window and the same next draw give the
  same answer.
\<close>

theorem evaluation_is_pure:
  "(\<exists>b w'. shouldActivateItem rt item w = Inr (b, w') \<and>
           selectedItems w' = selectedItems w \<and> chat w' = chat w \<and>
           extension_prompts w' = extension_prompts w) \<and>
   (slice (chat_messages w1) (- scanDepth item) = slice (chat_messages w2) (- scanDepth item) \<and>
    next_roll w1 = next_roll w2 \<longrightarrow>
      activates rt item w1 = activates rt item w2)"
proof -
  have "activates rt item w1 = activates rt item w2"
    if "slice (chat_messages w1) (- scanDepth item) = slice (chat_messages w2) (- scanDepth item)"
      and "next_roll w1 = next_roll w2"
    using that by (simp add: activates_eq searchText_slice gate_blocks_def cong: option.case_cong)
  then show ?thesis
    using shouldActivateItem_frame [of rt item w] by blast
qed

theorem evaluation_is_pure_witness:
  "slice (chat_messages example_world) (- scanDepth (example_item\<lparr>scan_depth := Some 1\<rparr>)) =
   slice (chat_messages long_chat_world) (- scanDepth (example_item\<lparr>scan_depth := Some 1\<rparr>)) \<and>
   next_roll example_world = next_roll long_chat_world \<and>
   activates example_runtime (example_item\<lparr>scan_depth := Some 1\<rparr>) example_world =
   activates example_runtime (example_item\<lparr>scan_depth := Some 1\<rparr>) long_chat_world"
proof -
  have h: "slice (chat_messages example_world) (- scanDepth (example_item\<lparr>scan_depth := Some 1\<rparr>)) =
           slice (chat_messages long_chat_world) (- scanDepth (example_item\<lparr>scan_depth := Some 1\<rparr>))"
          "next_roll example_world = next_roll long_chat_world"
    by (simp_all add: long_chat_world_def example_world_def chat_messages_def scanDepth_def
          slice_def next_roll_def)
  show ?thesis
    using evaluation_is_pure
            [of example_runtime "example_item\<lparr>scan_depth := Some 1\<rparr>" example_world
                example_world long_chat_world] h
    by blast
qed

section \<open>Totality and defaults\<close>

text \<open>
  Escaping is what keeps the pattern well-formed: with the keyword \<open>((\<close> left as it is,
  the pattern \<^verbatim>\<open>\b((()\b\<close> has an unterminated group, and with the keyword \<open>a*\<close> left as
  it is the pattern has a quantifier; with the keywords escaped both compile.
\<close>

lemma unescaped_pattern_fails:
  "new_RegExp (word_pattern [ascii ''((''] ) False = Inl SyntaxError"
  "new_RegExp (word_pattern [ascii ''a*'']) False = Inl OutsideFragment"
  "new_RegExp (word_pattern (map escapeRegExp [ascii ''(('', ascii ''a*''])) False =
     Inr \<lparr>ignoreCase = False, parsed = word_regex [ascii ''(('', ascii ''a*'']\<rparr>"
  by code_simp+

text \<open>
  C9: \<^verbatim>\<open>shouldActivateItem\<close> returns a boolean for every entry and every state and never
  raises an error; in particular the pattern that \<^verbatim>\<open>matchKeys\<close> hands to \<^verbatim>\<open>new RegExp\<close> is
  well-formed for every keyword list. An absent probability acts as 100: the probability
  check draws nothing and does not end the evaluation. An absent scan depth acts as 10.
\<close>

theorem shouldActivateItem_never_raises:
  "(\<exists>b w'. shouldActivateItem rt item w = Inr (b, w')) \<and>
   (\<exists>b. matchKeys rt t keys cs ww = Inr b) \<and>
   probability_check (item\<lparr>probability := None\<rparr>) w = (False, w) \<and>
   shouldActivateItem rt (item\<lparr>probability := None\<rparr>) w =
     shouldActivateItem rt (item\<lparr>probability := Some 100\<rparr>) w \<and>
   scanDepth (item\<lparr>scan_depth := None\<rparr>) = 10 \<and>
   shouldActivateItem rt (item\<lparr>scan_depth := None\<rparr>) w =
     shouldActivateItem rt (item\<lparr>scan_depth := Some 10\<rparr>) w"
proof -
  have p: "shouldActivateItem rt (item\<lparr>probability := None\<rparr>) w =
           shouldActivateItem rt (item\<lparr>probability := Some 100\<rparr>) w"
    by (simp add: shouldActivateItem_def probability_check_def keyword_step_def searchText_def
          scanDepth_def cong: if_cong sum.case_cong option.case_cong)
  have s: "shouldActivateItem rt (item\<lparr>scan_depth := None\<rparr>) w =
           shouldActivateItem rt (item\<lparr>scan_depth := Some 10\<rparr>) w"
    by (simp add: shouldActivateItem_def probability_check_def keyword_step_def searchText_def
          scanDepth_def cong: if_cong sum.case_cong option.case_cong)
  show ?thesis
    using shouldActivateItem_total [of rt item w] matchKeys_total [of rt t keys cs ww] p s
    by (simp add: probability_check_def scanDepth_def)
qed

theorem shouldActivateItem_never_raises_witness:
  "shouldActivateItem example_runtime (example_item\<lparr>probability := None\<rparr>) example_world =
     shouldActivateItem example_runtime example_item example_world \<and>
   shouldActivateItem example_runtime example_item example_world =
     shouldActivateItem example_runtime (example_item\<lparr>scan_depth := Some 10\<rparr>) example_world \<and>
   (\<exists>b. matchKeys example_runtime (ascii ''a)b'') [ascii ''(('', ascii ''[a-'', ascii ''*'']
          True True = Inr b)"
proof -
  have e: "example_item\<lparr>probability := Some 100\<rparr> = example_item"
          "example_item\<lparr>scan_depth := None\<rparr> = example_item"
    by (simp_all add: example_item_def)
  show ?thesis
    using shouldActivateItem_never_raises
            [of example_runtime example_item example_world "ascii ''a)b''"
                "[ascii ''(('', ascii ''[a-'', ascii ''*'']" True True]
    by (simp add: e)
qed

section \<open>Adding an entry\<close>

lemma selectedItems_logger_debug [simp]: "selectedItems (logger_debug m w) = selectedItems w"
  by (simp add: logger_debug_eq)

lemma selectedItems_setExtensionPrompt [simp]:
  "selectedItems (setExtensionPrompt k v pos d scan r w) = selectedItems w"
  by (simp add: setExtensionPrompt_def)

lemma updateItemPrompt_frame:
  "\<exists>w'. updateItemPrompt rt item w = Inr w' \<and> selectedItems w' = selectedItems w"
proof -
  obtain b w1 where "shouldActivateItem rt item w = Inr (b, w1)"
      "selectedItems w1 = selectedItems w"
    using shouldActivateItem_frame [of rt item w] by blast
  then show ?thesis
    by (simp add: updateItemPrompt_def Let_def)
qed

lemma forEach_updateItemPrompt_frame:
  "\<exists>w'. forEach_updateItemPrompt rt items w = Inr w' \<and> selectedItems w' = selectedItems w"
proof (induction items arbitrary: w)
  case Nil
  show ?case by simp
next
  case (Cons item items)
  obtain w1 where w1: "updateItemPrompt rt item w = Inr w1" "selectedItems w1 = selectedItems w"
    using updateItemPrompt_frame by blast
  obtain w2 where "forEach_updateItemPrompt rt items w1 = Inr w2"
      "selectedItems w2 = selectedItems w1"
    using Cons.IH by blast
  with w1 show ?case by simp
qed

lemma injectAllItems_frame:
  "\<exists>w'. injectAllItems rt w = Inr w' \<and> selectedItems w' = selectedItems w"
proof -
  let ?w1 = "logger_debug (RefreshAll (length (selectedItems w))) w"
  obtain w2 where "forEach_updateItemPrompt rt (selectedItems ?w1) ?w1 = Inr w2"
      "selectedItems w2 = selectedItems ?w1"
    using forEach_updateItemPrompt_frame by blast
  then show ?thesis
    by (simp add: injectAllItems_def Let_def)
qed

lemma new_item_logger_debug: "new_item wn u entry (logger_debug m w) = new_item wn u entry w"
  by (simp add: new_item_def logger_debug_eq)

lemma addSingleEntry_pushes:
  assumes "\<not> list_ex (\<lambda>item. worldName item = wn \<and> uid item = u) (selectedItems w)"
  shows "\<exists>w'. addSingleEntry rt wn u (Some entry) w = Inr w' \<and>
              selectedItems w' = selectedItems w @ [new_item wn u entry w]"
proof -
  let ?w1 = "logger_debug (AddingEntry (or_string (entry_comment entry) unnamed) wn) w"
  let ?w2 = "?w1\<lparr>selectedItems := selectedItems ?w1 @ [new_item wn u entry ?w1]\<rparr>"
  obtain w3 where w3: "injectAllItems rt ?w2 = Inr w3" "selectedItems w3 = selectedItems ?w2"
    using injectAllItems_frame by blast
  have "addSingleEntry rt wn u (Some entry) w =
          Inr (logger_info (EntryAdded (or_string (entry_comment entry) unnamed_entry)) w3)"
    using assms w3(1) by (simp add: addSingleEntry_def Let_def)
  with w3(2) show ?thesis
    by (simp add: logger_info_eq new_item_logger_debug)
qed

text \<open>
  C10: when \<^verbatim>\<open>addSingleEntry\<close> adds a host entry whose \<^verbatim>\<open>extensions.probability\<close> is 0, the
  item it stores has probability 100. No host entry gives a stored item with probability 0
  or without a probability, so the probability check of \<^verbatim>\<open>shouldActivateItem\<close> draws
  nothing for such an item and never ends its evaluation. In the same way an
  \<^verbatim>\<open>extensions.scan_depth\<close> of 0 is stored as \<^verbatim>\<open>null\<close>, for which the scan depth is the
  default 10.
\<close>

theorem falsy_default_clobbers_zero:
  assumes "\<not> list_ex (\<lambda>item. worldName item = wn \<and> uid item = u) (selectedItems w)"
  shows "(\<exists>w'. addSingleEntry rt wn u (Some entry) w = Inr w' \<and>
               selectedItems w' = selectedItems w @ [new_item wn u entry w]) \<and>
         probability (new_item wn u entry w) \<noteq> Some 0 \<and>
         probability (new_item wn u entry w) \<noteq> None \<and>
         (entry_extensions entry = Some ext \<and> ext_probability ext = Some 0 \<longrightarrow>
            probability (new_item wn u entry w) = Some 100 \<and>
            probability_check (new_item wn u entry w) w0 = (False, w0)) \<and>
         (entry_extensions entry = Some ext \<and> ext_scan_depth ext = Some 0 \<longrightarrow>
            scan_depth (new_item wn u entry w) = None \<and>
            scanDepth (new_item wn u entry w) = 10)"
proof -
  have "probability (new_item wn u entry w) \<noteq> Some 0"
    by (simp add: new_item_def or_number_def split: option.splits)
  moreover have "entry_extensions entry = Some ext \<and> ext_probability ext = Some 0 \<longrightarrow>
            probability (new_item wn u entry w) = Some 100 \<and>
            probability_check (new_item wn u entry w) w0 = (False, w0)"
    by (simp add: new_item_def or_number_def optional_chain_def probability_check_def)
  moreover have "entry_extensions entry = Some ext \<and> ext_scan_depth ext = Some 0 \<longrightarrow>
            scan_depth (new_item wn u entry w) = None \<and>
            scanDepth (new_item wn u entry w) = 10"
    by (simp add: new_item_def or_null_def optional_chain_def scanDepth_def)
  moreover have "probability (new_item wn u entry w) \<noteq> None"
    by (simp add: new_item_def)
  ultimately show ?thesis
    using addSingleEntry_pushes [OF assms, of rt entry] by blast
qed

theorem falsy_default_clobbers_zero_witness:
  "\<not> list_ex (\<lambda>item. worldName item = ascii ''lore'' \<and> uid item = ascii ''8'')
       (selectedItems example_world) \<and>
   entry_extensions host_entry = Some host_extensions \<and>
   ext_probability host_extensions = Some 0 \<and> ext_scan_depth host_extensions = Some 0 \<and>
   (\<exists>w'. addSingleEntry example_runtime (ascii ''lore'') (ascii ''8'') (Some host_entry)
            example_world = Inr w' \<and>
         selectedItems w' =
           [example_item, new_item (ascii ''lore'') (ascii ''8'') host_entry example_world]) \<and>
   probability (new_item (ascii ''lore'') (ascii ''8'') host_entry example_world) = Some 100 \<and>
   probability_check (new_item (ascii ''lore'') (ascii ''8'') host_entry example_world)
     example_world = (False, example_world) \<and>
   scan_depth (new_item (ascii ''lore'') (ascii ''8'') host_entry example_world) = None \<and>
   scanDepth (new_item (ascii ''lore'') (ascii ''8'') host_entry example_world) = 10"
proof -
  have h: "\<not> list_ex (\<lambda>item. worldName item = ascii ''lore'' \<and> uid item = ascii ''8'')
               (selectedItems example_world)"
    by (simp add: example_world_def example_item_def ascii_def)
  have e: "entry_extensions host_entry = Some host_extensions"
          "ext_probability host_extensions = Some 0" "ext_scan_depth host_extensions = Some 0"
    by (simp_all add: host_entry_def host_extensions_def)
  have s: "selectedItems example_world @
             [new_item (ascii ''lore'') (ascii ''8'') host_entry example_world] =
           [example_item, new_item (ascii ''lore'') (ascii ''8'') host_entry example_world]"
    by (simp add: example_world_def)
  show ?thesis
    using falsy_default_clobbers_zero
            [OF h, of example_runtime host_entry host_extensions example_world] e h
    unfolding s by blast
qed

section \<open>The order of the checks\<close>

text \<open>
  C6: \<^verbatim>\<open>shouldActivateItem\<close> looks at \<open>constant\<close> first and at \<open>disable\<close> second. An entry
  with \<open>constant\<close> set is activated whatever its other fields and the chat are, and an entry
  with \<open>constant\<close> unset and \<open>disable\<close> set is not activated whatever its probability, its
  keys and the chat are. Neither case draws a random value, calls the logger or changes
  anything else in the state.
\<close>

theorem constant_first_disable_second:
  "(constant item \<longrightarrow> shouldActivateItem rt item w = Inr (True, w)) \<and>
   (\<not> constant item \<and> disable item \<longrightarrow> shouldActivateItem rt item w = Inr (False, w))"
  by (simp add: shouldActivateItem_def)

theorem constant_first_disable_second_witness:
  "constant (example_item\<lparr>constant := True, disable := True, probability := Some 0\<rparr>) \<and>
   shouldActivateItem example_runtime
     (example_item\<lparr>constant := True, disable := True, probability := Some 0\<rparr>)
     example_world = Inr (True, example_world) \<and>
   \<not> constant (example_item\<lparr>disable := True\<rparr>) \<and> disable (example_item\<lparr>disable := True\<rparr>) \<and>
   shouldActivateItem example_runtime (example_item\<lparr>disable := True\<rparr>) example_world
     = Inr (False, example_world)"
  using constant_first_disable_second
          [of "example_item\<lparr>constant := True, disable := True, probability := Some 0\<rparr>"
              example_runtime example_world]
        constant_first_disable_second
          [of "example_item\<lparr>disable := True\<rparr>" example_runtime example_world]
  by (simp add: example_item_def)

end
